theory Spec2Isabelle
  imports
    Complex_Main
    "HOL-Library.Char_ord"
    "HOL-Library.List_Lexorder"
    "HOL-Library.Product_Lexorder"
    "HOL-Library.Multiset"
    "HOL-Library.Sublist"
begin

section \<open>Expense tracker: the record store, the receipt images and the mission report\<close>

text \<open>
  The program is one Python file, \<^verbatim>\<open>expense_tracker.py\<close>: a Tk form over a single
  SQLite table \<^verbatim>\<open>expenses\<close>, a helper that saves receipt images, and a PDF export.
  The model follows the methods of \<^verbatim>\<open>ExpenseTrackerApp\<close> one by one. What the
  methods read from the outside world (the answer of a dialog, the clock, the files on
  disk) is an argument of the model; what they change (the table, the form, the files)
  is returned.

  Text. A Python \<^verbatim>\<open>str\<close> is a \<^typ>\<open>string\<close>, one \<^typ>\<open>char\<close> for one character, so
  the model covers the characters with code points below 256. SQLite compares
  \<^verbatim>\<open>TEXT\<close> values byte by byte in their UTF-8 encoding, which is the order of the code
  points: the order of \<^typ>\<open>string\<close> used here (characters by code, then
  lexicographic, a proper prefix first).

  Numbers. An amount is a Python \<^verbatim>\<open>float\<close>. The model does not fix a representation
  of floating-point numbers: the type of amounts is a type variable, and the four
  operations the program applies to an amount are the fields of \<open>pylib\<close> below.
\<close>

subsection \<open>Python built-ins\<close>

text \<open>\<^verbatim>\<open>str.isspace\<close> on the characters below 256: the ASCII white space, the four
  separators \<^verbatim>\<open>\x1c\<close> to \<^verbatim>\<open>\x1f\<close>, NEL and the no-break space.\<close>

definition is_space :: "char \<Rightarrow> bool" where
  "is_space c = (c \<in> set [CHR 0x09, CHR 0x0A, CHR 0x0B, CHR 0x0C, CHR 0x0D,
                           CHR 0x1C, CHR 0x1D, CHR 0x1E, CHR 0x1F, CHR 0x20,
                           CHR 0x85, CHR 0xA0])"

text \<open>\<^verbatim>\<open>s.strip()\<close>\<close>

definition strip :: "string \<Rightarrow> string" where
  "strip s = rev (dropWhile is_space (rev (dropWhile is_space s)))"

text \<open>\<^verbatim>\<open>s.replace(old, new)\<close> for a non-empty \<^verbatim>\<open>old\<close>: the occurrences are replaced from
  left to right, without overlap.\<close>

fun replace :: "string \<Rightarrow> string \<Rightarrow> string \<Rightarrow> string" where
  "replace old new [] = []"
| "replace old new (c # cs) =
     (if old \<noteq> [] \<and> prefix old (c # cs)
      then new @ replace old new (drop (length old) (c # cs))
      else c # replace old new cs)"

text \<open>\<^verbatim>\<open>str(n)\<close> for a natural number.\<close>

fun str_nat :: "nat \<Rightarrow> string" where
  "str_nat n = (if n < 10 then [''0123456789'' ! n]
                else str_nat (n div 10) @ [''0123456789'' ! (n mod 10)])"

declare str_nat.simps [simp del]

text \<open>A number in decimal, padded with zeros on the left to the width \<open>w\<close>
  (\<^verbatim>\<open>%02d\<close>, \<^verbatim>\<open>%04d\<close>).\<close>

definition zero_pad :: "nat \<Rightarrow> nat \<Rightarrow> string" where
  "zero_pad w n = replicate (w - length (str_nat n)) CHR ''0'' @ str_nat n"

text \<open>What the program asks of a \<^verbatim>\<open>float\<close>: \<^verbatim>\<open>float(s)\<close> (\<open>None\<close> when it raises
  \<^verbatim>\<open>ValueError\<close>), the test \<^verbatim>\<open>x < 0\<close>, whether \<open>x\<close> is a NaN (SQLite stores a NaN as
  \<^verbatim>\<open>NULL\<close>), and the formatting \<^verbatim>\<open>f"{x:.2f}"\<close>.\<close>

record 'f pylib =
  float_of :: "string \<Rightarrow> 'f option"
  lt_zero :: "'f \<Rightarrow> bool"
  is_nan :: "'f \<Rightarrow> bool"
  format_2f :: "'f \<Rightarrow> string"

text \<open>An instance to run the model on: the amounts written with one to fifteen decimal
  digits, which \<^verbatim>\<open>float\<close> reads without rounding, as integers. On these it agrees with
  Python; it reads nothing else.\<close>

definition is_digit :: "char \<Rightarrow> bool" where
  "is_digit c = (c \<in> set ''0123456789'')"

definition digit_val :: "char \<Rightarrow> nat" where
  "digit_val c = of_char c - 48"

definition nat_of_digits :: "string \<Rightarrow> nat" where
  "nat_of_digits s = foldl (\<lambda>n c. 10 * n + digit_val c) 0 s"

definition whole_amounts :: "int pylib" where
  "whole_amounts =
     \<lparr> float_of = (\<lambda>s. if s \<noteq> [] \<and> length s \<le> 15 \<and> list_all is_digit s
                        then Some (int (nat_of_digits s)) else None),
       lt_zero = (\<lambda>x. x < 0),
       is_nan = (\<lambda>x. False),
       format_2f = (\<lambda>x. (if x < 0 then ''-'' else '''') @ str_nat (nat \<bar>x\<bar>) @ ''.00'') \<rparr>"

text \<open>The values of a Python \<^verbatim>\<open>float\<close>: a finite double is its sign bit and the rational
  number that is its magnitude (the sign bit tells \<^verbatim>\<open>-0.0\<close> from \<^verbatim>\<open>0.0\<close>); then the two
  infinities and the NaNs. On these the comparison \<^verbatim>\<open>x < 0\<close> and the formatting
  \<^verbatim>\<open>f"{x:.2f}"\<close> are computed: the formatting rounds the exact magnitude to hundredths,
  half to even, and prints \<^verbatim>\<open>inf\<close> and \<^verbatim>\<open>nan\<close> for the values that are no numbers. Only
  \<^verbatim>\<open>float(s)\<close>, which rounds a decimal numeral to the nearest double, stays an argument.\<close>

datatype pyfloat = Finite bool rat | Infinity bool | NaN

definition round_half_even :: "rat \<Rightarrow> nat" where
  "round_half_even q =
     (let f = \<lfloor>q\<rfloor>; r = q - of_int f
      in nat (if r < 1 / 2 then f else if 1 / 2 < r then f + 1
              else if even f then f else f + 1))"

fun py_format_2f :: "pyfloat \<Rightarrow> string" where
  "py_format_2f (Finite neg q) =
     (let n = round_half_even (\<bar>q\<bar> * 100)
      in (if neg then ''-'' else []) @ str_nat (n div 100) @ ''.'' @ zero_pad 2 (n mod 100))"
| "py_format_2f (Infinity neg) = (if neg then ''-inf'' else ''inf'')"
| "py_format_2f NaN = ''nan''"

fun py_lt_zero :: "pyfloat \<Rightarrow> bool" where
  "py_lt_zero (Finite neg q) = (neg \<and> q \<noteq> 0)"
| "py_lt_zero (Infinity neg) = neg"
| "py_lt_zero NaN = False"

definition python_floats :: "(string \<Rightarrow> pyfloat option) \<Rightarrow> pyfloat pylib" where
  "python_floats parse =
     \<lparr> float_of = parse, lt_zero = py_lt_zero, is_nan = (\<lambda>x. x = NaN),
       format_2f = py_format_2f \<rparr>"

text \<open>A text has two decimal places: an optional minus sign, at least one digit, a point
  and two digits.\<close>

definition two_places :: "string \<Rightarrow> bool" where
  "two_places t =
     (let body = (case t of [] \<Rightarrow> [] | c # cs \<Rightarrow> if c = CHR ''-'' then cs else t);
          k = length body
      in 4 \<le> k \<and> body ! (k - 3) = CHR ''.'' \<and>
         list_all is_digit (take (k - 3) body) \<and> list_all is_digit (drop (k - 2) body))"

text \<open>A reading of \<^verbatim>\<open>float\<close> for the samples: it reads one to fifteen decimal digits, and
  \<^verbatim>\<open>inf\<close>; on these it agrees with Python.\<close>

definition sample_float_of :: "string \<Rightarrow> pyfloat option" where
  "sample_float_of s =
     (if s = ''inf'' then Some (Infinity False)
      else if s \<noteq> [] \<and> length s \<le> 15 \<and> list_all is_digit s
      then Some (Finite False (of_nat (nat_of_digits s))) else None)"

subsection \<open>Dates\<close>

text \<open>\<^verbatim>\<open>parse_date_str(value)\<close> is \<^verbatim>\<open>datetime.strptime(value, "%Y-%m-%d").date()\<close>.
  \<^verbatim>\<open>strptime\<close> matches the whole string against year, month and day separated by
  \<^verbatim>\<open>-\<close>: the year is four digits, the month is \<^verbatim>\<open>1[0-2]|0[1-9]|[1-9]\<close>, the day is
  \<^verbatim>\<open>3[01]|[12]\d|0[1-9]|[1-9]| [1-9]\<close>; then the date has to exist (year at least 1).
  \<open>None\<close> is the \<^verbatim>\<open>ValueError\<close>.\<close>

fun split_on :: "char \<Rightarrow> string \<Rightarrow> string list" where
  "split_on sep [] = [[]]"
| "split_on sep (c # cs) =
     (if c = sep then [] # split_on sep cs
      else (case split_on sep cs of [] \<Rightarrow> [[c]] | w # ws \<Rightarrow> (c # w) # ws))"

definition year_field :: "string \<Rightarrow> bool" where
  "year_field s = (length s = 4 \<and> list_all is_digit s)"

definition month_field :: "string \<Rightarrow> bool" where
  "month_field s =
     (case s of
        [a] \<Rightarrow> is_digit a \<and> a \<noteq> CHR ''0''
      | [a, b] \<Rightarrow> (a = CHR ''1'' \<and> b \<in> set ''012'') \<or> (a = CHR ''0'' \<and> is_digit b \<and> b \<noteq> CHR ''0'')
      | _ \<Rightarrow> False)"

definition day_field :: "string \<Rightarrow> bool" where
  "day_field s =
     (case s of
        [a] \<Rightarrow> is_digit a \<and> a \<noteq> CHR ''0''
      | [a, b] \<Rightarrow> (a = CHR ''3'' \<and> b \<in> set ''01'') \<or> (a \<in> set ''12'' \<and> is_digit b)
                 \<or> (a \<in> set ''0 '' \<and> is_digit b \<and> b \<noteq> CHR ''0'')
      | _ \<Rightarrow> False)"

definition leap_year :: "nat \<Rightarrow> bool" where
  "leap_year y = (y mod 4 = 0 \<and> (y mod 100 \<noteq> 0 \<or> y mod 400 = 0))"

definition days_in_month :: "nat \<Rightarrow> nat \<Rightarrow> nat" where
  "days_in_month y m =
     (if m = 2 then (if leap_year y then 29 else 28)
      else if m \<in> set [4, 6, 9, 11] then 30 else 31)"

definition parse_date_str :: "string \<Rightarrow> (nat \<times> nat \<times> nat) option" where
  "parse_date_str v =
     (case split_on CHR ''-'' v of
        [y, m, d] \<Rightarrow>
          if year_field y \<and> month_field m \<and> day_field d
          then (let yy = nat_of_digits y; mm = nat_of_digits m;
                    dd = nat_of_digits (filter is_digit d)
                in if 1 \<le> yy \<and> dd \<le> days_in_month yy mm then Some (yy, mm, dd) else None)
          else None
      | _ \<Rightarrow> None)"

text \<open>\<^verbatim>\<open>format_date(d)\<close> is \<^verbatim>\<open>d.strftime("%Y-%m-%d")\<close>: the fields in decimal, padded with
  zeros to four, two and two digits.\<close>

definition format_date :: "nat \<times> nat \<times> nat \<Rightarrow> string" where
  "format_date d = (case d of (y, m, dd) \<Rightarrow>
     zero_pad 4 y @ ''-'' @ zero_pad 2 m @ ''-'' @ zero_pad 2 dd)"

text \<open>The date a stored text stands for, and the texts in canonical form: those that
  \<^verbatim>\<open>format_date\<close> gives back for the date they parse to (year in four digits, month and
  day in two).\<close>

definition date_value :: "string \<Rightarrow> nat \<times> nat \<times> nat" where
  "date_value s = (case parse_date_str s of Some d \<Rightarrow> d | None \<Rightarrow> (0, 0, 0))"

definition canonical_date :: "string \<Rightarrow> bool" where
  "canonical_date s =
     (case parse_date_str s of
        None \<Rightarrow> False
      | Some (y, m, d) \<Rightarrow> s = format_date (y, m, d) \<and> y < 10000 \<and> m < 100 \<and> d < 100)"

subsection \<open>The table \<^verbatim>\<open>expenses\<close>\<close>

text \<open>A row has the columns of the \<^verbatim>\<open>CREATE TABLE\<close> statement of \<^verbatim>\<open>init_db\<close>; the three
  columns without \<^verbatim>\<open>NOT NULL\<close> are options, \<open>None\<close> for \<^verbatim>\<open>NULL\<close>.\<close>

record 'f expense =
  expense_id :: int
  date :: string
  category :: string
  amount :: 'f
  description :: "string option"
  mission :: "string option"
  image_path :: "string option"

text \<open>The database: the rows of the table, and for \<^verbatim>\<open>AUTOINCREMENT\<close> the largest id the
  table has ever held (SQLite keeps it in \<^verbatim>\<open>sqlite_sequence\<close>). Ids are unbounded
  integers here; SQLite's limit of \<open>2^63 - 1\<close> is not modelled.\<close>

record 'f database =
  expenses :: "'f expense list"
  seq :: int

definition init_db :: "'f database" where
  "init_db = \<lparr> expenses = [], seq = 0 \<rparr>"

text \<open>Exceptions that leave a method, dialogs that end it, and the outcome of a method:
  \<open>Inl\<close> when it stops early (the state is then the one before the call), \<open>Inr\<close> with
  the new state when it runs to its end.\<close>

datatype py_error = ValueError | IntegrityError | ZeroDivisionError | OSError

datatype stop =
    ShowError string string
  | ShowInfo string string
  | Cancelled
  | Raised py_error

type_synonym 'a outcome = "stop + 'a"

text \<open>\<^verbatim>\<open>INSERT INTO expenses(date, category, amount, description, mission, image_path)
  VALUES (?, ?, ?, ?, ?, ?)\<close>. The new id is one more than the largest id the table has
  or has ever had. A NaN is bound as \<^verbatim>\<open>NULL\<close>, which \<^verbatim>\<open>amount REAL NOT NULL\<close> refuses.\<close>

definition next_id :: "'f database \<Rightarrow> int" where
  "next_id d = fold max (map expense_id (expenses d)) (seq d) + 1"

definition sql_insert ::
  "'f pylib \<Rightarrow> 'f database \<Rightarrow> string \<times> string \<times> 'f \<times> string \<times> string \<times> string option
     \<Rightarrow> py_error + 'f database" where
  "sql_insert L d vals = (case vals of (dt, cat, amt, descr, mis, img) \<Rightarrow>
     if is_nan L amt then Inl IntegrityError
     else Inr \<lparr> expenses = expenses d @
                   [\<lparr> expense_id = next_id d, date = dt, category = cat, amount = amt,
                      description = Some descr, mission = Some mis, image_path = img \<rparr>],
                seq = next_id d \<rparr>)"

text \<open>\<^verbatim>\<open>UPDATE expenses SET date=?, category=?, amount=?, description=?, mission=?,
  image_path=? WHERE id=?\<close>. The constraint is checked on the rows that are updated, so
  a NaN fails only when some row has the id.\<close>

definition sql_update ::
  "'f pylib \<Rightarrow> 'f database \<Rightarrow> string \<times> string \<times> 'f \<times> string \<times> string \<times> string option
     \<Rightarrow> int \<Rightarrow> py_error + 'f database" where
  "sql_update L d vals i = (case vals of (dt, cat, amt, descr, mis, img) \<Rightarrow>
     if is_nan L amt \<and> list_ex (\<lambda>r. expense_id r = i) (expenses d) then Inl IntegrityError
     else Inr (d \<lparr> expenses :=
                   map (\<lambda>r. if expense_id r = i
                             then r \<lparr> date := dt, category := cat, amount := amt,
                                    description := Some descr, mission := Some mis,
                                    image_path := img \<rparr>
                             else r) (expenses d) \<rparr>))"

text \<open>\<^verbatim>\<open>DELETE FROM expenses WHERE id=?\<close>\<close>

definition sql_delete :: "'f database \<Rightarrow> int \<Rightarrow> 'f database" where
  "sql_delete d i = d \<lparr> expenses := filter (\<lambda>r. expense_id r \<noteq> i) (expenses d) \<rparr>"

text \<open>\<^verbatim>\<open>ORDER BY date ASC, id ASC\<close> sorts on the pair (date, id); \<^verbatim>\<open>ORDER BY date DESC,
  id DESC\<close> is the reverse.\<close>

definition order_asc :: "'f expense list \<Rightarrow> 'f expense list" where
  "order_asc rows = sort_key (\<lambda>r. (date r, expense_id r)) rows"

definition order_desc :: "'f expense list \<Rightarrow> 'f expense list" where
  "order_desc rows = rev (order_asc rows)"

text \<open>\<^verbatim>\<open>SELECT * FROM expenses ORDER BY date DESC, id DESC\<close>\<close>

definition select_all :: "'f database \<Rightarrow> 'f expense list" where
  "select_all d = order_desc (expenses d)"

text \<open>SQLite's \<^verbatim>\<open>LIKE\<close>, pattern first: \<^verbatim>\<open>%\<close> stands for any run of characters, \<^verbatim>\<open>_\<close>
  for any one character, and any other character of the pattern for itself, the ASCII
  letters without regard to case. No escape character is set.\<close>

definition ascii_lower :: "char \<Rightarrow> char" where
  "ascii_lower c =
     (case map_of (zip ''ABCDEFGHIJKLMNOPQRSTUVWXYZ'' ''abcdefghijklmnopqrstuvwxyz'') c of
        Some l \<Rightarrow> l | None \<Rightarrow> c)"

fun like :: "string \<Rightarrow> string \<Rightarrow> bool" where
  "like [] s = (s = [])"
| "like (p # ps) s =
     (if p = CHR ''%'' then list_ex (like ps) (suffixes s)
      else (case s of
              [] \<Rightarrow> False
            | c # cs \<Rightarrow> (p = CHR ''_'' \<or> ascii_lower p = ascii_lower c) \<and> like ps cs))"

text \<open>The query of \<^verbatim>\<open>filter_expenses\<close>: \<^verbatim>\<open>SELECT * FROM expenses WHERE 1=1\<close>, then
  \<^verbatim>\<open>AND date >= ?\<close>, \<^verbatim>\<open>AND date <= ?\<close> and \<^verbatim>\<open>AND mission LIKE ?\<close> (bound to
  \<^verbatim>\<open>%mission%\<close>) for the values that are given, then \<^verbatim>\<open>ORDER BY date DESC, id DESC\<close>.
  A comparison with \<^verbatim>\<open>NULL\<close> is not true.\<close>

definition filter_where :: "string option \<Rightarrow> string option \<Rightarrow> string option \<Rightarrow> 'f expense \<Rightarrow> bool" where
  "filter_where from_str to_str mis r =
     ((case from_str of None \<Rightarrow> True | Some f \<Rightarrow> f \<le> date r) \<and>
      (case to_str of None \<Rightarrow> True | Some t \<Rightarrow> date r \<le> t) \<and>
      (case mis of None \<Rightarrow> True
       | Some m \<Rightarrow> (case mission r of None \<Rightarrow> False
                    | Some x \<Rightarrow> like (''%'' @ m @ ''%'') x)))"

definition select_filtered ::
  "string option \<Rightarrow> string option \<Rightarrow> string option \<Rightarrow> 'f database \<Rightarrow> 'f expense list" where
  "select_filtered from_str to_str mis d =
     order_desc (filter (filter_where from_str to_str mis) (expenses d))"

text \<open>The query of \<^verbatim>\<open>export_pdf\<close>: \<^verbatim>\<open>SELECT * FROM expenses WHERE mission = ? ORDER BY
  date ASC, id ASC\<close>.\<close>

definition select_mission :: "string \<Rightarrow> 'f database \<Rightarrow> 'f expense list" where
  "select_mission m d = order_asc (filter (\<lambda>r. mission r = Some m) (expenses d))"

subsection \<open>The application\<close>

text \<open>The state of \<^verbatim>\<open>ExpenseTrackerApp\<close>: the database file, the two attributes
  \<^verbatim>\<open>selected_expense_id\<close> and \<^verbatim>\<open>current_image_path\<close>, the text of the entry widgets
  and the rows shown in the tree view. The date widgets are the plain entries the
  program uses when \<^verbatim>\<open>tkcalendar\<close> is not installed; the preview label is left out.\<close>

type_synonym tree_item = "int \<times> string \<times> string \<times> string \<times> string option \<times> string option \<times> string"

record 'f app =
  db :: "'f database"
  selected_expense_id :: "int option"
  current_image_path :: "string option"
  date_input :: string
  category_var :: string
  amount_var :: string
  description_entry :: string
  mission_entry :: string
  image_path_var :: string
  filter_from_input :: string
  filter_to_input :: string
  filter_mission_entry :: string
  tree :: "tree_item list"

definition CATEGORIES :: "string list" where
  "CATEGORIES = [''Snapp'', ''Food'', ''Miscellaneous'']"

text \<open>\<^verbatim>\<open>_validate_form\<close>: \<open>None\<close> for \<^verbatim>\<open>(True, None)\<close>, \<open>Some msg\<close> for \<^verbatim>\<open>(False, msg)\<close>.\<close>

definition validate_form :: "'f pylib \<Rightarrow> 'f app \<Rightarrow> string option" where
  "validate_form L a =
     (let date_str = strip (date_input a) in
      if parse_date_str date_str = None then Some ''Invalid date. Use YYYY-MM-DD.''
      else let cat = strip (category_var a) in
      if cat = [] then Some ''Category is required.''
      else let amount_str = replace '','' [] (strip (amount_var a)) in
      case float_of L amount_str of
        None \<Rightarrow> Some ''Amount must be a number.''
      | Some amount_val \<Rightarrow>
          if lt_zero L amount_val then Some ''Amount cannot be negative.'' else None)"

text \<open>\<^verbatim>\<open>self.current_image_path or self.image_path_var.get().strip() or None\<close>\<close>

definition form_image_path :: "'f app \<Rightarrow> string option" where
  "form_image_path a =
     (let entered = strip (image_path_var a)
      in case current_image_path a of
           Some p \<Rightarrow> if p \<noteq> [] then Some p
                     else if entered \<noteq> [] then Some entered else None
         | None \<Rightarrow> if entered \<noteq> [] then Some entered else None)"

text \<open>\<^verbatim>\<open>_get_form_values\<close>; \<^verbatim>\<open>float\<close> may raise.\<close>

definition get_form_values ::
  "'f pylib \<Rightarrow> 'f app
     \<Rightarrow> py_error + (string \<times> string \<times> 'f \<times> string \<times> string \<times> string option)" where
  "get_form_values L a =
     (let date_str = strip (date_input a);
          cat = strip (category_var a)
      in case float_of L (replace '','' [] (strip (amount_var a))) of
           None \<Rightarrow> Inl ValueError
         | Some amount_val \<Rightarrow>
             let descr = strip (description_entry a);
                 mis = strip (mission_entry a);
                 img = form_image_path a
             in Inr (date_str, cat, amount_val, descr, mis, img))"

text \<open>\<^verbatim>\<open>clear_form\<close>; \<open>today\<close> is \<^verbatim>\<open>date.today()\<close>.\<close>

definition clear_form :: "nat \<times> nat \<times> nat \<Rightarrow> 'f app \<Rightarrow> 'f app" where
  "clear_form today a =
     a \<lparr> selected_expense_id := None,
         date_input := format_date today,
         category_var := hd CATEGORIES,
         amount_var := [],
         description_entry := [],
         mission_entry := [],
         image_path_var := [],
         current_image_path := None \<rparr>"

text \<open>\<^verbatim>\<open>_populate_tree\<close>\<close>

definition populate_tree :: "'f pylib \<Rightarrow> 'f expense list \<Rightarrow> tree_item list" where
  "populate_tree L rows =
     map (\<lambda>r. (expense_id r, date r, category r, format_2f L (amount r), description r,
                mission r, (case image_path r of None \<Rightarrow> [] | Some p \<Rightarrow> p))) rows"

text \<open>\<^verbatim>\<open>load_expenses\<close>: the filter entries are emptied and the tree shows the rows of
  the unfiltered query.\<close>

definition load_expenses :: "'f pylib \<Rightarrow> 'f app \<Rightarrow> 'f app" where
  "load_expenses L a =
     a \<lparr> filter_from_input := [], filter_to_input := [], filter_mission_entry := [],
         tree := populate_tree L (select_all (db a)) \<rparr>"

text \<open>\<^verbatim>\<open>_get_filter_date_value\<close> on a plain entry: an empty entry gives \<^verbatim>\<open>None\<close>, a text
  that is no date raises.\<close>

definition get_filter_date_value :: "string \<Rightarrow> py_error + string option" where
  "get_filter_date_value w =
     (let v2 = strip w in
      if v2 \<noteq> [] then (if parse_date_str v2 = None then Inl ValueError else Inr (Some v2))
      else Inr None)"

text \<open>\<^verbatim>\<open>filter_expenses\<close>. A condition enters the query when its value is a non-empty
  string (\<^verbatim>\<open>if from_str:\<close>, \<^verbatim>\<open>if to_str:\<close>, \<^verbatim>\<open>if mission:\<close>).\<close>

definition given :: "string \<Rightarrow> string option" where
  "given s = (if s \<noteq> [] then Some s else None)"

definition filter_expenses :: "'f pylib \<Rightarrow> 'f app \<Rightarrow> 'f app outcome" where
  "filter_expenses L a =
     (case get_filter_date_value (filter_from_input a) of
        Inl e \<Rightarrow> Inl (Raised e)
      | Inr from_str \<Rightarrow>
          (case get_filter_date_value (filter_to_input a) of
             Inl e \<Rightarrow> Inl (Raised e)
           | Inr to_str \<Rightarrow>
               let mis = strip (filter_mission_entry a);
                   rows = select_filtered (Option.bind from_str given) (Option.bind to_str given)
                            (given mis) (db a)
               in Inr (a \<lparr> tree := populate_tree L rows \<rparr>)))"

text \<open>\<^verbatim>\<open>add_expense\<close>\<close>

definition add_expense :: "'f pylib \<Rightarrow> nat \<times> nat \<times> nat \<Rightarrow> 'f app \<Rightarrow> 'f app outcome" where
  "add_expense L today a =
     (case validate_form L a of
        Some err \<Rightarrow> Inl (ShowError ''Validation Error'' (if err \<noteq> [] then err else ''Invalid input''))
      | None \<Rightarrow>
          (case get_form_values L a of
             Inl e \<Rightarrow> Inl (Raised e)
           | Inr vals \<Rightarrow>
               (case sql_insert L (db a) vals of
                  Inl e \<Rightarrow> Inl (Raised e)
                | Inr d \<Rightarrow> Inr (load_expenses L (clear_form today (a \<lparr> db := d \<rparr>))))))"

text \<open>\<^verbatim>\<open>edit_expense\<close>\<close>

definition edit_expense :: "'f pylib \<Rightarrow> nat \<times> nat \<times> nat \<Rightarrow> 'f app \<Rightarrow> 'f app outcome" where
  "edit_expense L today a =
     (case selected_expense_id a of
        None \<Rightarrow> Inl (ShowInfo ''No selection'' ''Double-click an item to load for editing.'')
      | Some i \<Rightarrow>
          (case validate_form L a of
             Some err \<Rightarrow> Inl (ShowError ''Validation Error'' (if err \<noteq> [] then err else ''Invalid input''))
           | None \<Rightarrow>
               (case get_form_values L a of
                  Inl e \<Rightarrow> Inl (Raised e)
                | Inr vals \<Rightarrow>
                    (case sql_update L (db a) vals i of
                       Inl e \<Rightarrow> Inl (Raised e)
                     | Inr d \<Rightarrow> Inr (load_expenses L (clear_form today (a \<lparr> db := d \<rparr>)))))))"

text \<open>\<^verbatim>\<open>delete_expense\<close>; \<open>confirmed\<close> is the answer to the \<^verbatim>\<open>askyesno\<close> dialog.\<close>

definition delete_expense :: "'f pylib \<Rightarrow> nat \<times> nat \<times> nat \<Rightarrow> bool \<Rightarrow> 'f app \<Rightarrow> 'f app outcome" where
  "delete_expense L today confirmed a =
     (case selected_expense_id a of
        None \<Rightarrow> Inl (ShowInfo ''No selection'' ''Select a row to delete.'')
      | Some i \<Rightarrow>
          if \<not> confirmed then Inl Cancelled
          else Inr (load_expenses L (clear_form today (a \<lparr> db := sql_delete (db a) i \<rparr>))))"

subsection \<open>Receipt images\<close>

text \<open>An image in memory, as Pillow holds it: its mode (\<^verbatim>\<open>"RGB"\<close>, \<^verbatim>\<open>"L"\<close>, \<^verbatim>\<open>"RGBA"\<close>,
  ...), its size in pixels and its samples. A file on disk is an image written in some
  format at some quality, a PDF document with the operations drawn on its canvas, or
  anything else.\<close>

record image =
  mode :: string
  width :: nat
  height :: nat
  pixels :: "nat list"

datatype draw_op =
    SetFont string nat
  | SetFillColor string
  | DrawString real real string
  | Line real real real real
  | DrawImage string real real real real
  | ShowPage

datatype disk_file =
    ImageFile string nat image
  | PdfFile "draw_op list"
  | OtherFile

type_synonym files = "string \<rightharpoonup> disk_file"

text \<open>\<^verbatim>\<open>os.path.join(a, b)\<close> on a POSIX system.\<close>

definition path_join :: "string \<Rightarrow> string \<Rightarrow> string" where
  "path_join a b =
     (if b \<noteq> [] \<and> hd b = CHR ''/'' then b
      else if a = [] \<or> last a = CHR ''/'' then a @ b
      else a @ ''/'' @ b)"

definition IMAGES_DIR :: string where
  "IMAGES_DIR = ''receipts''"

text \<open>\<^verbatim>\<open>receipts_dir()\<close>; \<open>app_dir\<close> is the absolute directory of the program file.\<close>

definition receipts_dir :: "string \<Rightarrow> string" where
  "receipts_dir app_dir = path_join app_dir IMAGES_DIR"

text \<open>\<^verbatim>\<open>datetime.now().strftime("%Y%m%d_%H%M%S")\<close> on the clock reading (year, month, day,
  hour, minute, second, microsecond); the format prints no microseconds.\<close>

type_synonym datetime = "nat \<times> nat \<times> nat \<times> nat \<times> nat \<times> nat \<times> nat"

definition strftime_stamp :: "datetime \<Rightarrow> string" where
  "strftime_stamp t = (case t of (y, mo, d, h, mi, s, us) \<Rightarrow>
     zero_pad 4 y @ zero_pad 2 mo @ zero_pad 2 d @ ''_'' @
     zero_pad 2 h @ zero_pad 2 mi @ zero_pad 2 s)"

text \<open>\<^verbatim>\<open>_save_image_to_receipts\<close>. \<open>convert_rgb\<close> is Pillow's \<^verbatim>\<open>image.convert("RGB")\<close>,
  \<open>now\<close> the clock reading. The result is the path and the files after
  \<^verbatim>\<open>img.save(target, format="JPEG", quality=85)\<close>; Pillow's conversion and the write
  into the receipts directory are taken to succeed.\<close>

definition save_image_to_receipts ::
  "(image \<Rightarrow> image) \<Rightarrow> string \<Rightarrow> datetime \<Rightarrow> image \<Rightarrow> files \<Rightarrow> string \<times> files" where
  "save_image_to_receipts convert_rgb app_dir now img0 fs =
     (let base = strftime_stamp now;
          target = path_join (receipts_dir app_dir) (''receipt_'' @ base @ ''.jpg'');
          img = (if mode img0 \<notin> set [''RGB'', ''L''] then convert_rgb img0 else img0)
      in (target, fs(target \<mapsto> ImageFile ''JPEG'' 85 img)))"

subsection \<open>The mission report\<close>

text \<open>What \<^verbatim>\<open>export_pdf\<close> takes from its libraries and from the installation: whether
  ReportLab, Pillow and the Persian shaping packages were imported, ReportLab's page size
  \<^verbatim>\<open>A4\<close> in points, the shaping \<^verbatim>\<open>get_display(arabic_reshaper.reshape(text))\<close> (\<open>None\<close>
  when it raises), and the font name that \<^verbatim>\<open>_register_persian_font\<close> returns (the font
  file it may download is not modelled). The three Persian texts of the page (the title
  before the mission, the label before the date of the report, the six column heads) lie
  outside the characters of the model and are fields as well.

  Coordinates are Python \<^verbatim>\<open>float\<close>s. A coordinate is modelled by the real number it
  stands for, and \<open>fround\<close> is the rounding of a real number to the nearest double:
  every arithmetic operation of the program on coordinates is the exact operation
  followed by \<open>fround\<close>.\<close>

record report_lib =
  HAS_REPORTLAB :: bool
  HAS_PIL :: bool
  HAS_PERSIAN :: bool
  A4 :: "real \<times> real"
  fround :: "real \<Rightarrow> real"
  reshape_display :: "string \<Rightarrow> string option"
  font_name :: string
  title_label :: string
  date_label :: string
  headers :: "string list"

text \<open>\<^verbatim>\<open>_persian_text\<close>\<close>

definition persian_text :: "report_lib \<Rightarrow> string \<Rightarrow> string" where
  "persian_text R text =
     (if \<not> HAS_PERSIAN R then text
      else (case reshape_display R text of Some bidi_text \<Rightarrow> bidi_text | None \<Rightarrow> text))"

definition header_positions :: "real list" where
  "header_positions = [40, 70, 150, 250, 330, 520]"

text \<open>The lines drawn at the top of every page.\<close>

definition page_head :: "report_lib \<Rightarrow> string \<Rightarrow> string \<Rightarrow> draw_op list" where
  "page_head R title_text sub_text =
     [SetFont (font_name R) 16, DrawString 40 (fround R (snd (A4 R) - 50)) title_text,
      SetFont (font_name R) 11, DrawString 40 (fround R (snd (A4 R) - 70)) sub_text]"

text \<open>The size at which an image of \<open>width\<close> by \<open>height\<close> pixels is drawn:
  \<^verbatim>\<open>scale = min(image_max_width / float(width), 300.0 / float(height))\<close>, then
  \<^verbatim>\<open>float(width) * scale\<close> and \<^verbatim>\<open>float(height) * scale\<close>. A division by zero raises.
  The sides of an image are integers far below \<open>2^53\<close>, so \<^verbatim>\<open>float(width)\<close> and
  \<^verbatim>\<open>float(height)\<close> are exact; the two divisions and the two products are rounded.\<close>

definition scaled_size :: "report_lib \<Rightarrow> real \<Rightarrow> nat \<times> nat \<Rightarrow> py_error + real \<times> real" where
  "scaled_size R image_max_width wh = (case wh of (w, h) \<Rightarrow>
     if w = 0 \<or> h = 0 then Inl ZeroDivisionError
     else (let scale = min (fround R (image_max_width / real w)) (fround R (300 / real h))
           in Inr (fround R (real w * scale), fround R (real h * scale))))"

text \<open>\<^verbatim>\<open>ImageReader(img_path)\<close> and the size of the image: Pillow's when it is there,
  1024 by 768 otherwise. A file that is no image raises.\<close>

definition image_size :: "report_lib \<Rightarrow> files \<Rightarrow> string \<Rightarrow> py_error + nat \<times> nat" where
  "image_size R fs img_path =
     (case fs img_path of
        Some (ImageFile fmt q im) \<Rightarrow>
          if HAS_PIL R then Inr (width im, height im) else Inr (1024, 768)
      | _ \<Rightarrow> Inl OSError)"

text \<open>The six values of a row.\<close>

definition row_values :: "'f pylib \<Rightarrow> nat \<Rightarrow> 'f expense \<Rightarrow> string list" where
  "row_values L index r =
     [str_nat index, date r, category r, format_2f L (amount r),
      (case description r of None \<Rightarrow> [] | Some s \<Rightarrow> s),
      (case mission r of None \<Rightarrow> [] | Some s \<Rightarrow> s)]"

text \<open>The image part of the loop body: the operations drawn and the new \<open>y\<close>. The
  \<^verbatim>\<open>try\<close> block raises before it draws, and \<^verbatim>\<open>except Exception: pass\<close> then leaves
  canvas and \<open>y\<close> as they were.\<close>

definition render_image ::
  "report_lib \<Rightarrow> files \<Rightarrow> string \<Rightarrow> string \<Rightarrow> real \<Rightarrow> string option \<Rightarrow> draw_op list \<times> real" where
  "render_image R fs title_text sub_text y img =
     (case img of
        None \<Rightarrow> ([], y)
      | Some img_path \<Rightarrow>
          if img_path \<noteq> [] \<and> fs img_path \<noteq> None
          then (case image_size R fs img_path of
                  Inl e \<Rightarrow> ([], y)
                | Inr wh \<Rightarrow>
                    (case scaled_size R (fround R (fst (A4 R) - 80)) wh of
                       Inl e \<Rightarrow> ([], y)
                     | Inr (new_w, new_h) \<Rightarrow>
                         if fround R (y - new_h) < 60
                         then (ShowPage # page_head R title_text sub_text @
                               [SetFont (font_name R) 10,
                                DrawImage img_path 40
                                  (fround R (fround R (snd (A4 R) - 100) - new_h)) new_w new_h],
                               fround R (fround R (snd (A4 R) - 100) - fround R (new_h + 8)))
                         else ([DrawImage img_path 40 (fround R (y - new_h)) new_w new_h],
                               fround R (y - fround R (new_h + 8)))))
          else ([], y))"

text \<open>One turn of \<^verbatim>\<open>for r in rows\<close>: the text of the row, its image, the page break.\<close>

definition render_row ::
  "report_lib \<Rightarrow> 'f pylib \<Rightarrow> files \<Rightarrow> string \<Rightarrow> string \<Rightarrow> nat \<Rightarrow> real \<Rightarrow> 'f expense
     \<Rightarrow> draw_op list \<times> real" where
  "render_row R L fs title_text sub_text index y r =
     (let text_ops = SetFont (font_name R) 10 #
                     map (\<lambda>(v, x). DrawString x y (persian_text R v))
                         (zip (row_values L index r) header_positions);
          y1 = fround R (y - 16);
          (img_ops, y2) = render_image R fs title_text sub_text y1 (image_path r)
      in if y2 < 60
         then (text_ops @ img_ops @ ShowPage # page_head R title_text sub_text,
               fround R (snd (A4 R) - 100))
         else (text_ops @ img_ops, y2))"

fun render_rows ::
  "report_lib \<Rightarrow> 'f pylib \<Rightarrow> files \<Rightarrow> string \<Rightarrow> string \<Rightarrow> nat \<Rightarrow> real \<Rightarrow> 'f expense list
     \<Rightarrow> draw_op list" where
  "render_rows R L fs title_text sub_text index y [] = []"
| "render_rows R L fs title_text sub_text index y (r # rs) =
     (case render_row R L fs title_text sub_text index y r of
        (ops, y') \<Rightarrow> ops @ render_rows R L fs title_text sub_text (index + 1) y' rs)"

text \<open>Everything drawn between \<^verbatim>\<open>canvas.Canvas(save_path, pagesize=A4)\<close> and
  \<^verbatim>\<open>c.save()\<close>.\<close>

definition render_report ::
  "report_lib \<Rightarrow> 'f pylib \<Rightarrow> files \<Rightarrow> string \<Rightarrow> string \<Rightarrow> 'f expense list \<Rightarrow> draw_op list" where
  "render_report R L fs mis today_str rows =
     (let title_text = persian_text R (title_label R @ mis);
          sub_text = persian_text R (date_label R @ today_str);
          y = fround R (snd (A4 R) - 100);
          head_ops = SetFillColor ''black'' # SetFont (font_name R) 12 #
                     map (\<lambda>(t, x). DrawString x y (persian_text R t))
                         (zip (headers R) header_positions);
          y1 = fround R (y - 16);
          rule = Line 40 (fround R (y1 + 4)) (fround R (fst (A4 R) - 40)) (fround R (y1 + 4));
          y2 = fround R (y1 - 6)
      in page_head R title_text sub_text @ head_ops @ [rule] @
         render_rows R L fs title_text sub_text 1 y2 rows)"

text \<open>The mission of the report: the filter entry, else the form entry, else the answer
  to the prompt (\<open>None\<close> when the dialog is closed); no mission ends the export.\<close>

definition export_mission :: "'f app \<Rightarrow> string option \<Rightarrow> string option" where
  "export_mission a prompt_answer =
     (let mis = (if strip (filter_mission_entry a) \<noteq> [] then strip (filter_mission_entry a)
                 else strip (mission_entry a))
      in if mis \<noteq> [] then Some mis
         else (case prompt_answer of
                 None \<Rightarrow> None
               | Some p \<Rightarrow> if p \<noteq> [] then Some p else None))"

text \<open>\<^verbatim>\<open>export_pdf\<close>. \<open>save_path\<close> is the answer of the save dialog, empty when it is
  cancelled. The result is the files after the export; the name proposed to the save
  dialog and the closing \<^verbatim>\<open>Export Complete\<close> message change nothing and are left
  out.\<close>

definition export_pdf ::
  "report_lib \<Rightarrow> 'f pylib \<Rightarrow> nat \<times> nat \<times> nat \<Rightarrow> string option \<Rightarrow> string \<Rightarrow> files \<Rightarrow> 'f app
     \<Rightarrow> files outcome" where
  "export_pdf R L today prompt_answer save_path fs a =
     (if \<not> HAS_REPORTLAB R
      then Inl (ShowError ''Missing Dependency'' ''ReportLab is required for PDF export.'')
      else (case export_mission a prompt_answer of
              None \<Rightarrow> Inl Cancelled
            | Some mis \<Rightarrow>
                (let rows = select_mission mis (db a) in
                 if rows = [] then Inl (ShowInfo ''No Data'' ''No expenses found for the given mission.'')
                 else if save_path = [] then Inl Cancelled
                 else Inr (fs(save_path \<mapsto>
                             PdfFile (render_report R L fs mis (format_date today) rows))))))"

text \<open>Reading a canvas: the strings drawn while the font size is \<open>n\<close> (the operations
  start at size \<open>cur\<close>), the font size after a run of operations, and the paths of the
  images drawn.\<close>

fun drawn_at :: "nat \<Rightarrow> nat \<Rightarrow> draw_op list \<Rightarrow> string list" where
  "drawn_at n cur [] = []"
| "drawn_at n cur (SetFont f s # ops) = drawn_at n s ops"
| "drawn_at n cur (DrawString x y t # ops) = (if cur = n then t # drawn_at n cur ops else drawn_at n cur ops)"
| "drawn_at n cur (_ # ops) = drawn_at n cur ops"

fun size_after :: "nat \<Rightarrow> draw_op list \<Rightarrow> nat" where
  "size_after cur [] = cur"
| "size_after cur (SetFont f s # ops) = size_after s ops"
| "size_after cur (_ # ops) = size_after cur ops"

fun images_drawn :: "draw_op list \<Rightarrow> string list" where
  "images_drawn [] = []"
| "images_drawn (DrawImage p x y w h # ops) = p # images_drawn ops"
| "images_drawn (_ # ops) = images_drawn ops"

text \<open>The image of a row that the report embeds, if any: the path is set, names a file
  that decodes as an image, and the size it reports has no zero side.\<close>

definition image_to_embed :: "report_lib \<Rightarrow> files \<Rightarrow> 'f expense \<Rightarrow> string option" where
  "image_to_embed R fs r =
     (case image_path r of
        None \<Rightarrow> None
      | Some p \<Rightarrow>
          (case image_size R fs p of
             Inl e \<Rightarrow> None
           | Inr (w, h) \<Rightarrow> if p \<noteq> [] \<and> w \<noteq> 0 \<and> h \<noteq> 0 then Some p else None))"

subsection \<open>The specification's wording, for comparison\<close>

text \<open>Python's \<^verbatim>\<open>sub in s\<close>: \<open>sub\<close> occurs in \<open>s\<close>, character for character.\<close>

definition contains :: "string \<Rightarrow> string \<Rightarrow> bool" where
  "contains sub s = list_ex (prefix sub) (suffixes s)"

text \<open>The filter as the specification words it: the mission condition is a
  case-sensitive substring match.\<close>

definition spec_filter_where ::
  "string option \<Rightarrow> string option \<Rightarrow> string option \<Rightarrow> 'f expense \<Rightarrow> bool" where
  "spec_filter_where from_date to_date mission_substring r =
     ((case from_date of None \<Rightarrow> True | Some f \<Rightarrow> f \<le> date r) \<and>
      (case to_date of None \<Rightarrow> True | Some t \<Rightarrow> date r \<le> t) \<and>
      (case mission_substring of None \<Rightarrow> True
       | Some m \<Rightarrow> (case mission r of None \<Rightarrow> False | Some x \<Rightarrow> contains m x)))"

text \<open>The image size as the specification words it: the smaller of the two ratios,
  capped at 1.\<close>

definition spec_scaled_size :: "real \<Rightarrow> nat \<times> nat \<Rightarrow> real \<times> real" where
  "spec_scaled_size content_width wh = (case wh of (w, h) \<Rightarrow>
     (let scale = min 1 (min (content_width / real w) (300 / real h))
      in (real w * scale, real h * scale)))"

subsection \<open>Sample data\<close>

text \<open>A row with the given id, date, mission and image; a library setting for the
  report; a form filled in over a given table. The sample setting does not round: the
  sizes used with it are chosen so that every operation on them is exact in doubles.\<close>

definition sample_row :: "int \<Rightarrow> string \<Rightarrow> string \<Rightarrow> string option \<Rightarrow> int expense" where
  "sample_row i d m img =
     \<lparr> expense_id = i, date = d, category = ''Food'', amount = 5,
       description = Some ''lunch'', mission = Some m, image_path = img \<rparr>"

definition sample_lib :: report_lib where
  "sample_lib =
     \<lparr> HAS_REPORTLAB = True, HAS_PIL = True, HAS_PERSIAN = False, A4 = (595, 842),
       fround = (\<lambda>x. x), reshape_display = (\<lambda>s. Some s), font_name = ''Helvetica'',
       title_label = ''Mission: '', date_label = ''Date: '',
       headers = [''#'', ''Date'', ''Category'', ''Amount'', ''Description'', ''Mission''] \<rparr>"

definition sample_app :: "int expense list \<Rightarrow> int option \<Rightarrow> string \<Rightarrow> string \<Rightarrow> int app" where
  "sample_app rows sel amount_text mission_filter =
     \<lparr> db = \<lparr> expenses = rows, seq = int (length rows) \<rparr>,
       selected_expense_id = sel,
       current_image_path = None,
       date_input = ''2024-03-05'',
       category_var = ''Food'',
       amount_var = amount_text,
       description_entry = ''taxi'',
       mission_entry = ''M'',
       image_path_var = [],
       filter_from_input = [],
       filter_to_input = [],
       filter_mission_entry = mission_filter,
       tree = [] \<rparr>"

text \<open>The same form with a receipt attached (\<^verbatim>\<open>current_image_path\<close>), and with a row
  selected.\<close>

definition sample_app_receipt :: "int expense list \<Rightarrow> int option \<Rightarrow> string \<Rightarrow> string \<Rightarrow> int app" where
  "sample_app_receipt rows sel amount_text receipt =
     (sample_app rows sel amount_text []) \<lparr> current_image_path := Some receipt \<rparr>"

definition sample_image :: "nat \<Rightarrow> nat \<Rightarrow> image" where
  "sample_image w h = \<lparr> mode = ''RGB'', width = w, height = h, pixels = [] \<rparr>"

section \<open>Properties\<close>

subsection \<open>The two orders\<close>

lemma mset_order_asc: "mset (order_asc rows) = mset rows"
  by (simp add: order_asc_def)

lemma mset_order_desc: "mset (order_desc rows) = mset rows"
  by (simp add: order_desc_def mset_order_asc)


lemma sorted_order_asc:
  "sorted_wrt (\<lambda>r s. date r < date s \<or> (date r = date s \<and> expense_id r \<le> expense_id s))
     (order_asc rows)"
proof -
  have "sorted (map (\<lambda>r. (date r, expense_id r)) (order_asc rows))"
    by (simp add: order_asc_def)
  then have "sorted_wrt (\<lambda>r s. (date r, expense_id r) \<le> (date s, expense_id s)) (order_asc rows)"
    by (simp add: sorted_map)
  then show ?thesis
    by (rule sorted_wrt_mono_rel[rotated]) (auto simp: less_eq_prod_def)
qed





lemma filter_order_asc: "filter P (order_asc rows) = order_asc (filter P rows)"
  by (simp add: order_asc_def filter_sort)

lemma filter_order_desc: "filter P (order_desc rows) = order_desc (filter P rows)"
  by (simp add: order_desc_def rev_filter[symmetric] filter_order_asc)

subsection \<open>Dates in canonical form compare as dates\<close>

text \<open>The table compares dates as text. For dates in canonical form the order of the texts
  is the order of the dates.\<close>

lemma digit_code:
  assumes "k < 10"
  shows "of_char (''0123456789'' ! k) = (48 + k :: nat)"
proof -
  have "list_all (\<lambda>k. of_char (''0123456789'' ! k) = (48 + k :: nat)) [0..<10]"
    by code_simp
  moreover have "k \<in> set [0..<10]" using assms by simp
  ultimately show ?thesis unfolding list_all_iff by blast
qed

lemma digit_less:
  assumes "a < 10" "b < 10"
  shows "''0123456789'' ! a < ''0123456789'' ! b \<longleftrightarrow> a < b"
  using digit_code[OF assms(1)] digit_code[OF assms(2)] by (simp only: less_char_def) simp

lemma digit_eq:
  assumes "a < 10" "b < 10"
  shows "''0123456789'' ! a = ''0123456789'' ! b \<longleftrightarrow> a = b"
proof
  assume "''0123456789'' ! a = ''0123456789'' ! b"
  then have "(of_char (''0123456789'' ! a) :: nat) = of_char (''0123456789'' ! b)"
    by (rule arg_cong)
  then have "48 + a = 48 + b"
    by (simp only: digit_code[OF assms(1)] digit_code[OF assms(2)])
  then show "a = b" by simp
next
  assume "a = b"
  then show "''0123456789'' ! a = ''0123456789'' ! b" by (rule arg_cong)
qed

lemma str_nat_small: "n < 10 \<Longrightarrow> str_nat n = [''0123456789'' ! n]"
  by (subst str_nat.simps) simp

lemma str_nat_large:
  "\<not> n < 10 \<Longrightarrow> str_nat n = str_nat (n div 10) @ [''0123456789'' ! (n mod 10)]"
  by (subst str_nat.simps) simp

lemma zero_pad_one: "n < 10 \<Longrightarrow> zero_pad (Suc 0) n = [''0123456789'' ! n]"
  by (simp add: zero_pad_def str_nat_small)

lemma zero_pad_Suc:
  assumes "1 \<le> w"
  shows "zero_pad (Suc w) n = zero_pad w (n div 10) @ [''0123456789'' ! (n mod 10)]"
proof (cases "n < 10")
  case True
  have z: "n div 10 = 0" "n mod 10 = n" using True by simp_all
  have r: "replicate (w - Suc 0) CHR ''0'' @ ''0'' = replicate w CHR ''0''"
    using assms by (cases w) (simp_all add: replicate_append_same)
  have "zero_pad (Suc w) n = replicate w CHR ''0'' @ [''0123456789'' ! n]"
    by (simp add: zero_pad_def str_nat_small[OF True])
  moreover have "zero_pad w 0 = replicate w CHR ''0''"
    using r by (simp add: zero_pad_def str_nat_small)
  ultimately show ?thesis by (simp add: z)
next
  case False
  show ?thesis
    by (simp add: zero_pad_def str_nat_large[OF False])
qed

lemma decimal_less:
  fixes qa ra qb rb :: nat
  assumes "ra < 10" "rb < 10"
  shows "10 * qa + ra < 10 * qb + rb \<longleftrightarrow> qa < qb \<or> (qa = qb \<and> ra < rb)"
proof (cases qa qb rule: linorder_cases)
  case less
  then have "qa + 1 \<le> qb" by simp
  then have "10 * qa + 10 \<le> 10 * qb" by simp
  with less assms show ?thesis by simp
next
  case equal
  then show ?thesis by simp
next
  case greater
  then have "qb + 1 \<le> qa" by simp
  then have "10 * qb + 10 \<le> 10 * qa" by simp
  with greater assms show ?thesis by simp
qed

lemma decimal_eq:
  fixes qa ra qb rb :: nat
  assumes "ra < 10" "rb < 10"
  shows "10 * qa + ra = 10 * qb + rb \<longleftrightarrow> qa = qb \<and> ra = rb"
proof (cases qa qb rule: linorder_cases)
  case less
  then have "qa + 1 \<le> qb" by simp
  then have "10 * qa + 10 \<le> 10 * qb" by simp
  with less assms show ?thesis by simp
next
  case equal
  then show ?thesis by simp
next
  case greater
  then have "qb + 1 \<le> qa" by simp
  then have "10 * qb + 10 \<le> 10 * qa" by simp
  with greater assms show ?thesis by simp
qed

lemma split_decimal:
  fixes a b :: nat
  shows "a < b \<longleftrightarrow> a div 10 < b div 10 \<or> (a div 10 = b div 10 \<and> a mod 10 < b mod 10)"
    and "a = b \<longleftrightarrow> a div 10 = b div 10 \<and> a mod 10 = b mod 10"
proof -
  have a: "a = 10 * (a div 10) + a mod 10" and b: "b = 10 * (b div 10) + b mod 10"
    by simp_all
  have m: "a mod 10 < 10" "b mod 10 < 10" by simp_all
  show "a < b \<longleftrightarrow> a div 10 < b div 10 \<or> (a div 10 = b div 10 \<and> a mod 10 < b mod 10)"
    by (subst a, subst b) (rule decimal_less[OF m])
  show "a = b \<longleftrightarrow> a div 10 = b div 10 \<and> a mod 10 = b mod 10"
    by (subst a, subst b) (rule decimal_eq[OF m])
qed

lemma zero_pad_order:
  assumes "1 \<le> w" "a < 10 ^ w" "b < 10 ^ w"
  shows "zero_pad w a @ r < zero_pad w b @ r' \<longleftrightarrow> a < b \<or> (a = b \<and> r < r')"
  using assms
proof (induction w arbitrary: a b r r')
  case 0
  then show ?case by simp
next
  case (Suc w)
  have m: "a mod 10 < 10" "b mod 10 < 10" by simp_all
  have lt: "a < b \<longleftrightarrow> a div 10 < b div 10 \<or> (a div 10 = b div 10 \<and> a mod 10 < b mod 10)"
    by (rule split_decimal(1))
  have eq: "a = b \<longleftrightarrow> a div 10 = b div 10 \<and> a mod 10 = b mod 10"
    by (rule split_decimal(2))
  show ?case
  proof (cases "w = 0")
    case True
    then have s: "a < 10" "b < 10" using Suc.prems by simp_all
    have "zero_pad (Suc w) a @ r < zero_pad (Suc w) b @ r' \<longleftrightarrow>
            (''0123456789'' ! a) # r < (''0123456789'' ! b) # r'"
      using True by (simp add: zero_pad_one[OF s(1)] zero_pad_one[OF s(2)])
    also have "\<dots> \<longleftrightarrow> a < b \<or> (a = b \<and> r < r')"
      by (simp add: digit_less[OF s] digit_eq[OF s])
    finally show ?thesis .
  next
    case False
    then have w: "1 \<le> w" by simp
    have d: "a div 10 < 10 ^ w" "b div 10 < 10 ^ w"
      using Suc.prems(2,3) by (simp_all add: less_mult_imp_div_less)
    have "zero_pad (Suc w) a @ r < zero_pad (Suc w) b @ r' \<longleftrightarrow>
            zero_pad w (a div 10) @ (''0123456789'' ! (a mod 10)) # r
              < zero_pad w (b div 10) @ (''0123456789'' ! (b mod 10)) # r'"
      by (simp add: zero_pad_Suc[OF w])
    also have "\<dots> \<longleftrightarrow> a div 10 < b div 10 \<or>
        (a div 10 = b div 10 \<and>
         (''0123456789'' ! (a mod 10)) # r < (''0123456789'' ! (b mod 10)) # r')"
      by (rule Suc.IH[OF w d])
    also have "\<dots> \<longleftrightarrow> a div 10 < b div 10 \<or>
        (a div 10 = b div 10 \<and> (a mod 10 < b mod 10 \<or> (a mod 10 = b mod 10 \<and> r < r')))"
      by (simp add: digit_less[OF m] digit_eq[OF m])
    also have "\<dots> \<longleftrightarrow> a < b \<or> (a = b \<and> r < r')"
      using lt eq by blast
    finally show ?thesis .
  qed
qed

lemma format_date_less:
  assumes "y < 10000" "m < 100" "d < 100" "y' < 10000" "m' < 100" "d' < 100"
  shows "format_date (y, m, d) < format_date (y', m', d') \<longleftrightarrow> (y, m, d) < (y', m', d')"
proof -
  have 1: "zero_pad 2 d < zero_pad 2 d' \<longleftrightarrow> d < d'"
    using zero_pad_order[of 2 d d' "[]" "[]"] assms by simp
  have 2: "zero_pad 2 m @ r < zero_pad 2 m' @ r' \<longleftrightarrow> m < m' \<or> (m = m' \<and> r < r')" for r r'
    using zero_pad_order[of 2 m m' r r'] assms by simp
  have 3: "zero_pad 4 y @ r < zero_pad 4 y' @ r' \<longleftrightarrow> y < y' \<or> (y = y' \<and> r < r')" for r r'
    using zero_pad_order[of 4 y y' r r'] assms by simp
  show ?thesis
    by (auto simp: format_date_def 1 2 3 less_prod_def)
qed

lemma format_date_eq:
  assumes "y < 10000" "m < 100" "d < 100" "y' < 10000" "m' < 100" "d' < 100"
  shows "format_date (y, m, d) = format_date (y', m', d') \<longleftrightarrow> (y, m, d) = (y', m', d')"
proof
  assume e: "format_date (y, m, d) = format_date (y', m', d')"
  have "\<not> (y, m, d) < (y', m', d')"
    using format_date_less[OF assms] e by simp
  moreover have "\<not> (y', m', d') < (y, m, d)"
    using format_date_less[OF assms(4-6) assms(1-3)] e by simp
  ultimately show "(y, m, d) = (y', m', d')"
    using linorder_less_linear[of "(y, m, d)" "(y', m', d')"] by blast
qed simp

lemma canonical_order:
  assumes "canonical_date s" "canonical_date t"
  shows "s < t \<longleftrightarrow> date_value s < date_value t" and "s = t \<longleftrightarrow> date_value s = date_value t"
proof -
  obtain y m d where s: "parse_date_str s = Some (y, m, d)" "s = format_date (y, m, d)"
      "y < 10000" "m < 100" "d < 100"
    using assms(1) by (auto simp: canonical_date_def split: option.splits)
  obtain y' m' d' where t: "parse_date_str t = Some (y', m', d')" "t = format_date (y', m', d')"
      "y' < 10000" "m' < 100" "d' < 100"
    using assms(2) by (auto simp: canonical_date_def split: option.splits)
  have v: "date_value s = (y, m, d)" "date_value t = (y', m', d')"
    by (simp_all add: date_value_def s(1) t(1))
  show "s < t \<longleftrightarrow> date_value s < date_value t"
    unfolding v by (subst s(2), subst t(2)) (rule format_date_less[OF s(3-5) t(3-5)])
  show "s = t \<longleftrightarrow> date_value s = date_value t"
    unfolding v by (subst s(2), subst t(2)) (rule format_date_eq[OF s(3-5) t(3-5)])
qed


lemma chronological_asc:
  assumes "\<forall>r \<in> set rows. canonical_date (date r)"
  shows "sorted_wrt (\<lambda>r s. date_value (date r) < date_value (date s) \<or>
                (date_value (date r) = date_value (date s) \<and> expense_id r \<le> expense_id s))
           (order_asc rows)"
proof (rule sorted_wrt_mono_rel[OF _ sorted_order_asc])
  fix r s
  assume "r \<in> set (order_asc rows)" "s \<in> set (order_asc rows)"
  then have c: "canonical_date (date r)" "canonical_date (date s)"
    using assms by (simp_all add: order_asc_def)
  assume "date r < date s \<or> (date r = date s \<and> expense_id r \<le> expense_id s)"
  then show "date_value (date r) < date_value (date s) \<or>
      (date_value (date r) = date_value (date s) \<and> expense_id r \<le> expense_id s)"
    using canonical_order[OF c(1) c(2)] by simp
qed

subsection \<open>Digits\<close>

lemma zero_pad_two:
  assumes "n < 100"
  shows "zero_pad 2 n = [''0123456789'' ! (n div 10), ''0123456789'' ! (n mod 10)]"
proof -
  have d: "n div 10 < 10" using assms by simp
  have "zero_pad (Suc (Suc 0)) n = zero_pad (Suc 0) (n div 10) @ [''0123456789'' ! (n mod 10)]"
    by (rule zero_pad_Suc) simp
  then show ?thesis
    by (simp add: zero_pad_one[OF d] numeral_2_eq_2)
qed

lemma zero_pad_four:
  assumes "n < 10000"
  shows "zero_pad 4 n = [''0123456789'' ! (n div 1000), ''0123456789'' ! (n div 100 mod 10),
                         ''0123456789'' ! (n div 10 mod 10), ''0123456789'' ! (n mod 10)]"
proof -
  have d: "n div 100 < 100" using assms by simp
  have e: "n div 10 div 10 = n div 100" "n div 100 div 10 = n div 1000"
    by (simp_all add: div_mult2_eq[symmetric])
  have "zero_pad (Suc 3) n = zero_pad 3 (n div 10) @ [''0123456789'' ! (n mod 10)]"
    by (rule zero_pad_Suc) simp
  moreover have "zero_pad (Suc 2) (n div 10)
      = zero_pad 2 (n div 10 div 10) @ [''0123456789'' ! (n div 10 mod 10)]"
    by (rule zero_pad_Suc) simp
  moreover have "Suc 3 = 4" "Suc 2 = 3" by simp_all
  ultimately have "zero_pad 4 n = zero_pad 2 (n div 100)
      @ [''0123456789'' ! (n div 10 mod 10), ''0123456789'' ! (n mod 10)]"
    by (simp add: e)
  then show ?thesis
    by (simp add: zero_pad_two[OF d] e)
qed

lemma digit_is_digit:
  assumes "k < 10"
  shows "is_digit (''0123456789'' ! k)"
proof -
  have "list_all (\<lambda>k. is_digit (''0123456789'' ! k)) [0..<10]"
    by code_simp
  moreover have "k \<in> set [0..<10]" using assms by simp
  ultimately show ?thesis unfolding list_all_iff by blast
qed

lemma str_nat_digits: "list_all is_digit (str_nat n)"
proof (induction n rule: str_nat.induct)
  case (1 n)
  show ?case
  proof (cases "n < 10")
    case True
    then show ?thesis by (simp add: str_nat_small digit_is_digit)
  next
    case False
    then show ?thesis
      using 1 by (simp add: str_nat_large digit_is_digit)
  qed
qed

lemma str_nat_not_Nil: "str_nat n \<noteq> []"
  by (cases "n < 10") (simp_all add: str_nat_small str_nat_large)

subsection \<open>Listing\<close>




subsection \<open>Saving a receipt\<close>

lemma receipt_path:
  assumes "app_dir \<noteq> []" "last app_dir \<noteq> CHR ''/''"
  shows "path_join (receipts_dir app_dir) (''receipt_'' @ stamp @ ''.jpg'')
           = app_dir @ ''/receipts/receipt_'' @ stamp @ ''.jpg''"
  using assms by (simp add: receipts_dir_def IMAGES_DIR_def path_join_def)

lemma strftime_stamp_digits:
  assumes "y < 10000" "mo < 100" "d < 100" "h < 100" "mi < 100" "s < 100"
  shows "strftime_stamp (y, mo, d, h, mi, s, us) =
           [''0123456789'' ! (y div 1000), ''0123456789'' ! (y div 100 mod 10),
            ''0123456789'' ! (y div 10 mod 10), ''0123456789'' ! (y mod 10),
            ''0123456789'' ! (mo div 10), ''0123456789'' ! (mo mod 10),
            ''0123456789'' ! (d div 10), ''0123456789'' ! (d mod 10),
            CHR ''_'',
            ''0123456789'' ! (h div 10), ''0123456789'' ! (h mod 10),
            ''0123456789'' ! (mi div 10), ''0123456789'' ! (mi mod 10),
            ''0123456789'' ! (s div 10), ''0123456789'' ! (s mod 10)]"
  by (simp add: strftime_stamp_def zero_pad_four[OF assms(1)] zero_pad_two[OF assms(2)]
        zero_pad_two[OF assms(3)] zero_pad_two[OF assms(4)] zero_pad_two[OF assms(5)]
        zero_pad_two[OF assms(6)])

text \<open>
  Claim C9. \<^verbatim>\<open>_save_image_to_receipts\<close> writes one file and returns its path. The path is
  the application directory followed by \<^verbatim>\<open>/receipts/receipt_\<close>, the year in four digits,
  month and day in two digits each, an underscore, hour, minute and second in two digits
  each, and \<^verbatim>\<open>.jpg\<close>; the microseconds of the clock do not enter. The file is the image
  encoded as JPEG at quality 85, converted to RGB first unless its mode is \<^verbatim>\<open>RGB\<close> or
  \<^verbatim>\<open>L\<close>, and no other file changes. A second image saved within the same second, at
  whatever microsecond, gets the same path, and the file then holds the second image.
\<close>

theorem save_image_to_receipts_path:
  assumes "app_dir \<noteq> []" "last app_dir \<noteq> CHR ''/''"
      and "y < 10000" "mo < 100" "d < 100" "h < 100" "mi < 100" "s < 100"
  shows "(let path = app_dir @ ''/receipts/receipt_'' @
                  [''0123456789'' ! (y div 1000), ''0123456789'' ! (y div 100 mod 10),
                   ''0123456789'' ! (y div 10 mod 10), ''0123456789'' ! (y mod 10),
                   ''0123456789'' ! (mo div 10), ''0123456789'' ! (mo mod 10),
                   ''0123456789'' ! (d div 10), ''0123456789'' ! (d mod 10),
                   CHR ''_'',
                   ''0123456789'' ! (h div 10), ''0123456789'' ! (h mod 10),
                   ''0123456789'' ! (mi div 10), ''0123456789'' ! (mi mod 10),
                   ''0123456789'' ! (s div 10), ''0123456789'' ! (s mod 10)] @ ''.jpg'';
              jpeg = (\<lambda>img. ImageFile ''JPEG'' 85
                        (if mode img = ''RGB'' \<or> mode img = ''L'' then img else cv img))
          in save_image_to_receipts cv app_dir (y, mo, d, h, mi, s, us) img fs
               = (path, fs(path \<mapsto> jpeg img)) \<and>
             save_image_to_receipts cv app_dir (y, mo, d, h, mi, s, us') img2
                 (snd (save_image_to_receipts cv app_dir (y, mo, d, h, mi, s, us) img fs))
               = (path, fs(path \<mapsto> jpeg img2)))"
proof -
  have p: "path_join (receipts_dir app_dir) (''receipt_'' @ strftime_stamp t @ ''.jpg'')
             = app_dir @ ''/receipts/receipt_'' @ strftime_stamp t @ ''.jpg''" for t
    by (rule receipt_path[OF assms(1,2)])
  have 1: "save_image_to_receipts cv app_dir t im files
             = (app_dir @ ''/receipts/receipt_'' @ strftime_stamp t @ ''.jpg'',
                files(app_dir @ ''/receipts/receipt_'' @ strftime_stamp t @ ''.jpg'' \<mapsto>
                  ImageFile ''JPEG'' 85
                    (if mode im = ''RGB'' \<or> mode im = ''L'' then im else cv im)))"
    for t im files
    unfolding save_image_to_receipts_def Let_def p by simp
  show ?thesis
    unfolding Let_def 1 strftime_stamp_digits[OF assms(3-8)] by simp
qed

text \<open>On 1 May 2024 at 09:03:07 an RGBA image is saved, and 0.4 seconds later a grey-scale
  image: both go to \<^verbatim>\<open>/app/receipts/receipt_20240501_090307.jpg\<close>, the first converted, and
  the file ends up holding the second.\<close>

theorem save_image_to_receipts_path_witness:
  "''/app'' \<noteq> [] \<and> last ''/app'' = CHR ''p'' \<and>
   save_image_to_receipts (\<lambda>im. im \<lparr> mode := ''RGB'' \<rparr>) ''/app'' (2024, 5, 1, 9, 3, 7, 250000)
     \<lparr> mode = ''RGBA'', width = 4, height = 2, pixels = [1] \<rparr> Map.empty
   = (''/app/receipts/receipt_20240501_090307.jpg'',
      [''/app/receipts/receipt_20240501_090307.jpg'' \<mapsto>
         ImageFile ''JPEG'' 85 \<lparr> mode = ''RGB'', width = 4, height = 2, pixels = [1] \<rparr>]) \<and>
   save_image_to_receipts (\<lambda>im. im \<lparr> mode := ''RGB'' \<rparr>) ''/app'' (2024, 5, 1, 9, 3, 7, 650000)
     \<lparr> mode = ''L'', width = 3, height = 3, pixels = [2] \<rparr>
     (snd (save_image_to_receipts (\<lambda>im. im \<lparr> mode := ''RGB'' \<rparr>) ''/app''
             (2024, 5, 1, 9, 3, 7, 250000)
             \<lparr> mode = ''RGBA'', width = 4, height = 2, pixels = [1] \<rparr> Map.empty))
   = (''/app/receipts/receipt_20240501_090307.jpg'',
      [''/app/receipts/receipt_20240501_090307.jpg'' \<mapsto>
         ImageFile ''JPEG'' 85 \<lparr> mode = ''L'', width = 3, height = 3, pixels = [2] \<rparr>])"
  using save_image_to_receipts_path [of "''/app''" 2024 5 1 9 3 7
          "\<lambda>im. im \<lparr> mode := ''RGB'' \<rparr>" 250000
          "\<lparr> mode = ''RGBA'', width = 4, height = 2, pixels = [1] \<rparr>" Map.empty 650000
          "\<lparr> mode = ''L'', width = 3, height = 3, pixels = [2] \<rparr>"]
  by (auto simp add: Let_def)

subsection \<open>The report of a mission without rows\<close>

lemma select_mission_empty:
  "select_mission m d = [] \<longleftrightarrow> (\<forall>r \<in> set (expenses d). mission r \<noteq> Some m)"
proof -
  have "select_mission m d = [] \<longleftrightarrow> set (select_mission m d) = {}"
    by simp
  also have "\<dots> \<longleftrightarrow> (\<forall>r \<in> set (expenses d). mission r \<noteq> Some m)"
    by (auto simp: select_mission_def order_asc_def)
  finally show ?thesis .
qed

text \<open>
  Claim C4. When the mission of the export is \<open>m\<close> and no row of the table has exactly
  \<open>m\<close> as its mission, \<^verbatim>\<open>export_pdf\<close> ends with the message \<^verbatim>\<open>No Data\<close>: it returns before
  the save dialog and before any canvas is created, so no file is written. Rows whose
  mission only contains \<open>m\<close> do not count. (The program reports the case with a message
  box; it has no exception named NoDataError.)
\<close>

theorem export_pdf_no_data:
  assumes "HAS_REPORTLAB R"
      and "export_mission a prompt_answer = Some m"
      and "\<forall>r \<in> set (expenses (db a)). mission r \<noteq> Some m"
  shows "export_pdf R L today prompt_answer save_path fs a
           = Inl (ShowInfo ''No Data'' ''No expenses found for the given mission.'')"
  using assms by (simp add: export_pdf_def select_mission_empty[symmetric])

text \<open>The table holds one row, of mission \<^verbatim>\<open>Alpha Trip\<close>; the export of mission
  \<^verbatim>\<open>Alpha\<close> finds no data, although the listing filter on \<^verbatim>\<open>Alpha\<close> shows the row.\<close>

theorem export_pdf_no_data_witness:
  "HAS_REPORTLAB sample_lib \<and>
   export_mission (sample_app [sample_row 1 ''2024-01-01'' ''Alpha Trip'' None] None [] ''Alpha'')
     None = Some ''Alpha'' \<and>
   map mission (expenses (db (sample_app [sample_row 1 ''2024-01-01'' ''Alpha Trip'' None]
                                None [] ''Alpha''))) = [Some ''Alpha Trip''] \<and>
   contains ''Alpha'' ''Alpha Trip'' \<and>
   export_pdf sample_lib whole_amounts (2024, 5, 1) None ''/tmp/out.pdf'' Map.empty
     (sample_app [sample_row 1 ''2024-01-01'' ''Alpha Trip'' None] None [] ''Alpha'')
     = Inl (ShowInfo ''No Data'' ''No expenses found for the given mission.'')"
  using export_pdf_no_data [of sample_lib
          "sample_app [sample_row 1 ''2024-01-01'' ''Alpha Trip'' None] None [] ''Alpha''"
          None "''Alpha''" whole_amounts "(2024, 5, 1)" "''/tmp/out.pdf''" Map.empty]
  by (simp add: sample_lib_def sample_app_def sample_row_def export_mission_def strip_def
        is_space_def contains_def)

subsection \<open>Writing to the table\<close>

lemma replace_comma: "replace '','' [] s = filter (\<lambda>c. c \<noteq> CHR '','') s"
  by (induction s) simp_all

lemma fold_max_ge: "(s::int) \<le> fold max xs s"
proof (induction xs arbitrary: s)
  case Nil
  show ?case by simp
next
  case (Cons a ys)
  have "s \<le> max a s" by simp
  also have "\<dots> \<le> fold max ys (max a s)" by (rule Cons.IH)
  finally show ?case by simp
qed

lemma fold_max_mem: "x \<in> set xs \<Longrightarrow> (x::int) \<le> fold max xs s"
proof (induction xs arbitrary: s)
  case Nil
  then show ?case by simp
next
  case (Cons a ys)
  show ?case
  proof (cases "x = a")
    case True
    have "x \<le> max a s" using True by simp
    also have "\<dots> \<le> fold max ys (max a s)" by (rule fold_max_ge)
    finally show ?thesis by simp
  next
    case False
    with Cons.prems have "x \<in> set ys" by simp
    then show ?thesis using Cons.IH by simp
  qed
qed

lemma next_id_fresh: "r \<in> set (expenses d) \<Longrightarrow> expense_id r < next_id d"
  using fold_max_mem[of "expense_id r" "map expense_id (expenses d)" "seq d"]
  by (simp add: next_id_def)

lemma sql_update_absent:
  assumes "i \<notin> expense_id ` set (expenses d)"
  shows "sql_update L d vals i = Inr d"
proof -
  have "map (\<lambda>r. if expense_id r = i then f r else r) (expenses d) = expenses d" for f
    using assms by (intro map_idI) auto
  moreover have "\<not> list_ex (\<lambda>r. expense_id r = i) (expenses d)"
    using assms by (auto simp: list_ex_iff)
  ultimately show ?thesis
    by (simp add: sql_update_def split: prod.splits)
qed

lemma sql_delete_absent:
  assumes "i \<notin> expense_id ` set (expenses d)"
  shows "sql_delete d i = d"
proof -
  have "filter (\<lambda>r. expense_id r \<noteq> i) (expenses d) = expenses d"
    using assms by (auto simp: filter_id_conv)
  then show ?thesis by (simp add: sql_delete_def)
qed

lemma validate_form_None:
  "validate_form L a = None \<longleftrightarrow>
     parse_date_str (strip (date_input a)) \<noteq> None \<and> strip (category_var a) \<noteq> [] \<and>
     (\<exists>v. float_of L (replace '','' [] (strip (amount_var a))) = Some v \<and> \<not> lt_zero L v)"
  by (auto simp: validate_form_def Let_def split: option.splits)

lemma db_load_clear: "db (load_expenses L (clear_form today a)) = db a"
  by (simp add: load_expenses_def clear_form_def)

text \<open>
  Claim C2, as the program has it. With an id selected that the table does not hold,
  \<^verbatim>\<open>delete_expense\<close> (once confirmed) and \<^verbatim>\<open>edit_expense\<close> (once the form passes
  validation) run to their end as they do for any id: the statement changes no row, the
  form is cleared and the list reloaded. Neither reports that the id is missing, and
  whatever they return, the table is as before.
\<close>

theorem absent_id_no_error:
  assumes "selected_expense_id a = Some i"
      and "i \<notin> expense_id ` set (expenses (db a))"
  shows "delete_expense L today True a = Inr (load_expenses L (clear_form today a)) \<and>
         (validate_form L a = None \<longrightarrow>
            edit_expense L today a = Inr (load_expenses L (clear_form today a))) \<and>
         (\<forall>a'. edit_expense L today a = Inr a' \<or> delete_expense L today confirmed a = Inr a'
            \<longrightarrow> db a' = db a)"
proof -
  have del: "delete_expense L today True a = Inr (load_expenses L (clear_form today a))"
    using assms by (simp add: delete_expense_def sql_delete_absent)
  have ed: "edit_expense L today a = Inr (load_expenses L (clear_form today a))"
    if ok: "validate_form L a = None"
  proof -
    obtain v where "float_of L (replace '','' [] (strip (amount_var a))) = Some v"
      using ok by (auto simp: validate_form_None)
    then obtain vals where "get_form_values L a = Inr vals"
      by (simp add: get_form_values_def Let_def)
    then show ?thesis
      using assms ok by (simp add: edit_expense_def sql_update_absent)
  qed
  have same: "db a' = db a"
    if "edit_expense L today a = Inr a' \<or> delete_expense L today confirmed a = Inr a'" for a'
    using that
  proof
    assume e: "edit_expense L today a = Inr a'"
    then have "validate_form L a = None"
      using assms by (auto simp: edit_expense_def split: option.splits)
    from ed[OF this] e show ?thesis by (simp add: db_load_clear)
  next
    assume "delete_expense L today confirmed a = Inr a'"
    then show ?thesis
      using assms
      by (auto simp: delete_expense_def sql_delete_absent db_load_clear split: if_splits)
  qed
  from del ed same show ?thesis by blast
qed

text \<open>Id 7 is selected and the table is empty.\<close>

theorem absent_id_no_error_witness:
  "selected_expense_id (sample_app [] (Some 7) ''5'' []) = Some 7 \<and>
   expense_id ` set (expenses (db (sample_app [] (Some 7) ''5'' []))) = {} \<and>
   validate_form whole_amounts (sample_app [] (Some 7) ''5'' []) = None \<and>
   delete_expense whole_amounts (2024, 5, 1) True (sample_app [] (Some 7) ''5'' [])
     = Inr (load_expenses whole_amounts (clear_form (2024, 5, 1) (sample_app [] (Some 7) ''5'' []))) \<and>
   edit_expense whole_amounts (2024, 5, 1) (sample_app [] (Some 7) ''5'' [])
     = Inr (load_expenses whole_amounts (clear_form (2024, 5, 1) (sample_app [] (Some 7) ''5'' [])))"
proof -
  have v: "validate_form whole_amounts (sample_app [] (Some 7) ''5'' []) = None"
    by code_simp
  show ?thesis
    using absent_id_no_error [of "sample_app [] (Some 7) ''5'' []" 7 whole_amounts "(2024, 5, 1)" True] v
    by (simp add: sample_app_def)
qed

text \<open>The claim as the specification words it fails: updating or deleting id 7 in an
  empty table is not an error. Both methods return normally, with the form cleared and
  the (empty) list reloaded.\<close>

theorem absent_id_counterexample:
  "edit_expense whole_amounts (2024, 5, 1) (sample_app [] (Some 7) ''5'' [])
     = Inr ((sample_app [] None [] []) \<lparr> date_input := ''2024-05-01'', category_var := ''Snapp'',
                                       mission_entry := [], description_entry := [] \<rparr>) \<and>
   delete_expense whole_amounts (2024, 5, 1) True (sample_app [] (Some 7) ''5'' [])
     = Inr ((sample_app [] None [] []) \<lparr> date_input := ''2024-05-01'', category_var := ''Snapp'',
                                       mission_entry := [], description_entry := [] \<rparr>)"
  by code_simp

lemma get_form_values_Some:
  assumes "float_of L (replace '','' [] (strip (amount_var a))) = Some v"
  shows "get_form_values L a =
           Inr (strip (date_input a), strip (category_var a), v, strip (description_entry a),
                strip (mission_entry a), form_image_path a)"
  using assms by (simp add: get_form_values_def Let_def)

text \<open>
  Claim C7. When the date of the form parses, the category is not empty and the amount
  reads as a number that is neither negative nor a NaN, \<^verbatim>\<open>add_expense\<close> succeeds: the
  table is the old table followed by one new row, and the old rows are as they were. The
  new row has an id larger than every id of the old table and carries the values of the
  form: date, category, description and mission stripped, the amount read, and as image
  path the attached receipt if there is one, else the text of the image entry, else
  nothing. The reloaded list holds the new row exactly once, next to the rows it held
  before.
\<close>

theorem add_expense_creates:
  assumes "parse_date_str (strip (date_input a)) \<noteq> None"
      and "strip (category_var a) \<noteq> []"
      and "float_of L (replace '','' [] (strip (amount_var a))) = Some v"
      and "\<not> lt_zero L v" and "\<not> is_nan L v"
  shows "(let new = \<lparr> expense_id = next_id (db a), date = strip (date_input a),
                      category = strip (category_var a), amount = v,
                      description = Some (strip (description_entry a)),
                      mission = Some (strip (mission_entry a)),
                      image_path =
                        (case current_image_path a of
                           Some p \<Rightarrow> if p \<noteq> [] then Some p else given (strip (image_path_var a))
                         | None \<Rightarrow> given (strip (image_path_var a))) \<rparr>;
              a' = load_expenses L (clear_form today
                     (a \<lparr> db := \<lparr> expenses = expenses (db a) @ [new], seq = next_id (db a) \<rparr> \<rparr>))
          in add_expense L today a = Inr a' \<and>
             expenses (db a') = expenses (db a) @ [new] \<and>
             (\<forall>r \<in> set (expenses (db a)). expense_id r < expense_id new) \<and>
             tree a' = populate_tree L (select_all (db a')) \<and>
             mset (select_all (db a')) = add_mset new (mset (select_all (db a))) \<and>
             count (mset (select_all (db a'))) new = 1)"
proof -
  have img: "form_image_path a =
               (case current_image_path a of
                  Some p \<Rightarrow> if p \<noteq> [] then Some p else given (strip (image_path_var a))
                | None \<Rightarrow> given (strip (image_path_var a)))"
    by (simp add: form_image_path_def given_def Let_def split: option.splits)
  define new where "new = \<lparr> expense_id = next_id (db a), date = strip (date_input a),
                      category = strip (category_var a), amount = v,
                      description = Some (strip (description_entry a)),
                      mission = Some (strip (mission_entry a)),
                      image_path = form_image_path a \<rparr>"
  define a' where "a' = load_expenses L (clear_form today
                     (a \<lparr> db := \<lparr> expenses = expenses (db a) @ [new], seq = next_id (db a) \<rparr> \<rparr>))"
  have ok: "validate_form L a = None"
    using assms(1-4) by (auto simp: validate_form_None)
  have ins: "sql_insert L (db a) (strip (date_input a), strip (category_var a), v,
               strip (description_entry a), strip (mission_entry a), form_image_path a)
               = Inr \<lparr> expenses = expenses (db a) @ [new], seq = next_id (db a) \<rparr>"
    using assms(5) by (simp add: sql_insert_def new_def)
  have fresh: "\<forall>r \<in> set (expenses (db a)). expense_id r < expense_id new"
    by (simp add: next_id_fresh new_def)
  then have notin: "new \<notin> set (expenses (db a))" by auto
  have r: "add_expense L today a = Inr a'"
    using ok ins by (simp add: add_expense_def get_form_values_Some[OF assms(3)] a'_def)
  have e: "expenses (db a') = expenses (db a) @ [new]"
    by (simp add: a'_def load_expenses_def clear_form_def)
  have m: "mset (select_all (db a')) = add_mset new (mset (select_all (db a)))"
    by (simp add: select_all_def mset_order_desc e)
  have "count (mset (select_all (db a))) new = 0"
    using notin by (simp add: select_all_def mset_order_desc count_eq_zero_iff)
  then have c: "count (mset (select_all (db a'))) new = 1"
    by (simp only: m) simp
  have t: "tree a' = populate_tree L (select_all (db a'))"
    by (simp add: a'_def load_expenses_def clear_form_def)
  from r e fresh t m c show ?thesis
    unfolding Let_def img [symmetric] new_def [symmetric] a'_def [symmetric] by blast
qed

text \<open>One row with id 1 is stored. The form of the sample, with amount 5 and the attached
  receipt \<^verbatim>\<open>/app/receipts/r.jpg\<close>, is added and becomes the row with id 2, receipt
  included.\<close>

theorem add_expense_creates_witness:
  "parse_date_str (strip (date_input
     (sample_app_receipt [sample_row 1 ''2024-01-01'' ''A'' None] None ''5''
        ''/app/receipts/r.jpg''))) = Some (2024, 3, 5) \<and>
   strip (category_var
     (sample_app_receipt [sample_row 1 ''2024-01-01'' ''A'' None] None ''5''
        ''/app/receipts/r.jpg'')) = ''Food'' \<and>
   float_of whole_amounts (replace '','' []
     (strip (amount_var
        (sample_app_receipt [sample_row 1 ''2024-01-01'' ''A'' None] None ''5''
           ''/app/receipts/r.jpg'')))) = Some 5 \<and>
   \<not> lt_zero whole_amounts 5 \<and> \<not> is_nan whole_amounts 5 \<and>
   (case add_expense whole_amounts (2024, 5, 1)
           (sample_app_receipt [sample_row 1 ''2024-01-01'' ''A'' None] None ''5''
              ''/app/receipts/r.jpg'') of
      Inl e \<Rightarrow> False
    | Inr a' \<Rightarrow> expenses (db a') =
        [sample_row 1 ''2024-01-01'' ''A'' None,
         \<lparr> expense_id = 2, date = ''2024-03-05'', category = ''Food'', amount = 5,
           description = Some ''taxi'', mission = Some ''M'',
           image_path = Some ''/app/receipts/r.jpg'' \<rparr>])"
proof -
  let ?a = "sample_app_receipt [sample_row 1 ''2024-01-01'' ''A'' None] None ''5''
              ''/app/receipts/r.jpg''"
  have h1: "parse_date_str (strip (date_input ?a)) = Some (2024, 3, 5)" by code_simp
  have h2: "strip (category_var ?a) = ''Food''" by code_simp
  have h3: "float_of whole_amounts (replace '','' [] (strip (amount_var ?a))) = Some 5" by code_simp
  have h4: "\<not> lt_zero whole_amounts 5" "\<not> is_nan whole_amounts 5"
    by (simp_all add: whole_amounts_def)
  have n: "next_id (db ?a) = 2" by code_simp
  have s: "strip (description_entry ?a) = ''taxi''" "strip (mission_entry ?a) = ''M''"
          "strip (date_input ?a) = ''2024-03-05''"
    by code_simp+
  have x: "expenses (db ?a) = [sample_row 1 ''2024-01-01'' ''A'' None]"
          "current_image_path ?a = Some ''/app/receipts/r.jpg''"
    by (simp_all add: sample_app_receipt_def sample_app_def)
  show ?thesis
    using add_expense_creates [of ?a whole_amounts 5 "(2024, 5, 1)"] h1 h2 h3 h4
    by (simp add: Let_def n s x)
qed

subsection \<open>Commas in the amount\<close>

text \<open>
  Claim C10. \<^verbatim>\<open>_validate_form\<close> and \<^verbatim>\<open>_get_form_values\<close> hand to \<^verbatim>\<open>float\<close> the text of the
  amount entry, stripped, with every comma removed; for the entry \<^verbatim>\<open>1,000\<close> that text is
  \<^verbatim>\<open>1000\<close>. Whenever the comma-free text reads as a number that is neither negative nor
  a NaN (and date and category are in order), the form passes validation, \<^verbatim>\<open>add_expense\<close>
  appends a row whose amount is the number read, and \<^verbatim>\<open>edit_expense\<close> replaces the fields
  of every row with the selected id, the amount by the number read, and leaves the other
  rows alone.
\<close>

theorem amount_commas_removed:
  assumes "parse_date_str (strip (date_input a)) \<noteq> None"
      and "strip (category_var a) \<noteq> []"
      and "float_of L (filter (\<lambda>c. c \<noteq> CHR '','') (strip (amount_var a))) = Some v"
      and "\<not> lt_zero L v" and "\<not> is_nan L v"
  shows "replace '','' [] (strip ''1,000'') = ''1000'' \<and>
         validate_form L a = None \<and>
         add_expense L today a =
           Inr (load_expenses L (clear_form today
             (a \<lparr> db := \<lparr> expenses = expenses (db a) @
                              [\<lparr> expense_id = next_id (db a), date = strip (date_input a),
                                 category = strip (category_var a), amount = v,
                                 description = Some (strip (description_entry a)),
                                 mission = Some (strip (mission_entry a)),
                                 image_path = form_image_path a \<rparr>],
                            seq = next_id (db a) \<rparr> \<rparr>))) \<and>
         (\<forall>i. selected_expense_id a = Some i \<longrightarrow>
            edit_expense L today a =
              Inr (load_expenses L (clear_form today
                (a \<lparr> db := (db a) \<lparr> expenses :=
                     map (\<lambda>r. if expense_id r = i
                               then r \<lparr> date := strip (date_input a),
                                      category := strip (category_var a), amount := v,
                                      description := Some (strip (description_entry a)),
                                      mission := Some (strip (mission_entry a)),
                                      image_path := form_image_path a \<rparr>
                               else r) (expenses (db a)) \<rparr> \<rparr>))))"
proof -
  have f: "float_of L (replace '','' [] (strip (amount_var a))) = Some v"
    using assms(3) by (simp add: replace_comma)
  have ok: "validate_form L a = None"
    using assms(1,2,4) f by (auto simp: validate_form_None)
  have s: "replace '','' [] (strip ''1,000'') = ''1000''"
    by (simp add: strip_def is_space_def)
  show ?thesis
    using ok s assms(5)
    by (simp add: get_form_values_Some[OF f] add_expense_def edit_expense_def
          sql_insert_def sql_update_def)
qed

text \<open>The entry \<^verbatim>\<open>1,000\<close> with the row of id 1 selected: the form is valid, adding it
  stores a second row with the amount 1000, and updating stores 1000 in row 1.\<close>

theorem amount_commas_removed_witness:
  "parse_date_str (strip (date_input
      (sample_app [sample_row 1 ''2024-01-01'' ''A'' None] (Some 1) ''1,000'' [])))
     = Some (2024, 3, 5) \<and>
   strip (category_var
      (sample_app [sample_row 1 ''2024-01-01'' ''A'' None] (Some 1) ''1,000'' [])) = ''Food'' \<and>
   float_of whole_amounts
     (filter (\<lambda>c. c \<noteq> CHR '','')
        (strip (amount_var
           (sample_app [sample_row 1 ''2024-01-01'' ''A'' None] (Some 1) ''1,000'' []))))
     = Some 1000 \<and>
   \<not> lt_zero whole_amounts 1000 \<and> \<not> is_nan whole_amounts 1000 \<and>
   (case add_expense whole_amounts (2024, 5, 1)
           (sample_app [sample_row 1 ''2024-01-01'' ''A'' None] (Some 1) ''1,000'' []) of
      Inl e \<Rightarrow> False
    | Inr a' \<Rightarrow> map amount (expenses (db a')) = [5, 1000]) \<and>
   (case edit_expense whole_amounts (2024, 5, 1)
           (sample_app [sample_row 1 ''2024-01-01'' ''A'' None] (Some 1) ''1,000'' []) of
      Inl e \<Rightarrow> False
    | Inr a' \<Rightarrow> map (\<lambda>r. (expense_id r, amount r)) (expenses (db a')) = [(1, 1000)])"
proof -
  let ?a = "sample_app [sample_row 1 ''2024-01-01'' ''A'' None] (Some 1) ''1,000'' []"
  have h1: "parse_date_str (strip (date_input ?a)) = Some (2024, 3, 5)" by code_simp
  have h2: "strip (category_var ?a) = ''Food''" by code_simp
  have h3: "float_of whole_amounts (filter (\<lambda>c. c \<noteq> CHR '','') (strip (amount_var ?a))) = Some 1000"
    by code_simp
  have h4: "\<not> lt_zero whole_amounts 1000" "\<not> is_nan whole_amounts 1000"
    by (simp_all add: whole_amounts_def)
  have x: "expenses (db ?a) = [sample_row 1 ''2024-01-01'' ''A'' None]"
          "selected_expense_id ?a = Some 1"
    by (simp_all add: sample_app_def)
  have y: "amount (sample_row 1 ''2024-01-01'' ''A'' None) = 5"
          "expense_id (sample_row 1 ''2024-01-01'' ''A'' None) = 1"
    by (simp_all add: sample_row_def)
  show ?thesis
    using amount_commas_removed [of ?a whole_amounts 1000 "(2024, 5, 1)"] h1 h2 h3 h4
    by (simp add: load_expenses_def clear_form_def x y)
qed

subsection \<open>The canvas of the report\<close>

lemma drawn_at_append:
  "drawn_at n cur (a @ b) = drawn_at n cur a @ drawn_at n (size_after cur a) b"
proof (induction a arbitrary: cur)
  case Nil
  show ?case by simp
next
  case (Cons op ops)
  then show ?case by (cases op) simp_all
qed

lemma size_after_append: "size_after cur (a @ b) = size_after (size_after cur a) b"
proof (induction a arbitrary: cur)
  case Nil
  show ?case by simp
next
  case (Cons op ops)
  then show ?case by (cases op) simp_all
qed

lemma images_drawn_append: "images_drawn (a @ b) = images_drawn a @ images_drawn b"
proof (induction a)
  case Nil
  show ?case by simp
next
  case (Cons op ops)
  then show ?case by (cases op) simp_all
qed

lemma strings_drawn:
  "drawn_at n n (map (\<lambda>(v, x). DrawString x y (g v)) zs) = map (\<lambda>(v, x). g v) zs"
  "size_after n (map (\<lambda>(v, x). DrawString x y (g v)) zs) = n"
  "images_drawn (map (\<lambda>(v, x). DrawString x y (g v)) zs) = []"
  by (induction zs) auto

lemma strings_not_drawn:
  "n \<noteq> k \<Longrightarrow> drawn_at n k (map (\<lambda>(v, x). DrawString x y (g v)) zs) = []"
  by (induction zs) auto

lemma page_head_canvas:
  "drawn_at 10 cur (page_head R title_text sub_text) = []"
  "size_after cur (page_head R title_text sub_text) = 11"
  "images_drawn (page_head R title_text sub_text) = []"
  by (simp_all add: page_head_def)

lemma render_image_canvas:
  assumes "render_image R fs title_text sub_text y (image_path r) = (ops, y')"
  shows "drawn_at 10 10 ops = []"
    and "size_after 10 ops = 10"
    and "images_drawn ops = (case image_to_embed R fs r of None \<Rightarrow> [] | Some p \<Rightarrow> [p])"
  using assms
  by (auto simp: render_image_def image_to_embed_def scaled_size_def image_size_def Let_def
        page_head_canvas drawn_at_append size_after_append images_drawn_append
        split: option.splits if_splits sum.splits prod.splits disk_file.splits)

lemma row_values_zip:
  "map (\<lambda>(v, x). g v) (zip (row_values L index r) header_positions) = map g (row_values L index r)"
  by (simp add: row_values_def header_positions_def)

lemma render_row_canvas:
  assumes "render_row R L fs title_text sub_text index y r = (ops, y')"
  shows "drawn_at 10 cur ops = map (persian_text R) (row_values L index r)"
    and "images_drawn ops = (case image_to_embed R fs r of None \<Rightarrow> [] | Some p \<Rightarrow> [p])"
proof -
  obtain img_ops y2 where
    im: "render_image R fs title_text sub_text (fround R (y - 16)) (image_path r) = (img_ops, y2)"
    by (cases "render_image R fs title_text sub_text (fround R (y - 16)) (image_path r)")
  let ?text = "SetFont (font_name R) 10 #
                 map (\<lambda>(v, x). DrawString x y (persian_text R v))
                     (zip (row_values L index r) header_positions)"
  have ops: "ops = ?text @ img_ops @ (if y2 < 60 then ShowPage # page_head R title_text sub_text else [])"
    using assms im by (auto simp: render_row_def Let_def split: if_splits)
  have t: "drawn_at 10 cur ?text = map (persian_text R) (row_values L index r)"
          "size_after cur ?text = 10" "images_drawn ?text = []"
    by (simp_all add: strings_drawn row_values_zip)
  show "drawn_at 10 cur ops = map (persian_text R) (row_values L index r)"
    unfolding ops drawn_at_append t size_after_append render_image_canvas[OF im]
    by (simp add: page_head_canvas)
  show "images_drawn ops = (case image_to_embed R fs r of None \<Rightarrow> [] | Some p \<Rightarrow> [p])"
    unfolding ops images_drawn_append t render_image_canvas[OF im]
    by (simp add: page_head_canvas)
qed

lemma render_rows_drawn:
  "drawn_at 10 cur (render_rows R L fs title_text sub_text index y rows)
     = concat (map (\<lambda>(i, r). map (persian_text R) (row_values L i r))
                   (zip [index..<index + length rows] rows))"
proof (induction rows arbitrary: cur index y)
  case Nil
  show ?case by simp
next
  case (Cons r rs)
  obtain ops y' where rr: "render_row R L fs title_text sub_text index y r = (ops, y')"
    by (cases "render_row R L fs title_text sub_text index y r")
  have up: "zip [index..<index + length (r # rs)] (r # rs)
              = (index, r) # zip [Suc index..<Suc index + length rs] rs"
    by (simp add: upt_conv_Cons del: upt_Suc)
  have "drawn_at 10 cur (render_rows R L fs title_text sub_text index y (r # rs))
          = drawn_at 10 cur ops
            @ drawn_at 10 (size_after cur ops) (render_rows R L fs title_text sub_text (Suc index) y' rs)"
    by (simp add: rr drawn_at_append)
  also have "\<dots> = map (persian_text R) (row_values L index r)
            @ concat (map (\<lambda>(i, r). map (persian_text R) (row_values L i r))
                   (zip [Suc index..<Suc index + length rs] rs))"
    by (simp only: render_row_canvas(1)[OF rr] Cons.IH)
  finally show ?case
    unfolding up by simp
qed

lemma render_rows_images:
  "images_drawn (render_rows R L fs title_text sub_text index y rows)
     = concat (map (\<lambda>r. case image_to_embed R fs r of None \<Rightarrow> [] | Some p \<Rightarrow> [p]) rows)"
proof (induction rows arbitrary: index y)
  case Nil
  show ?case by simp
next
  case (Cons r rs)
  obtain ops y' where rr: "render_row R L fs title_text sub_text index y r = (ops, y')"
    by (cases "render_row R L fs title_text sub_text index y r")
  show ?case
    by (simp add: rr images_drawn_append render_row_canvas(2)[OF rr] Cons.IH)
qed

lemma render_report_canvas:
  "drawn_at 10 cur (render_report R L fs mis today_str rows)
     = concat (map (\<lambda>(i, r). map (persian_text R) (row_values L i r))
                   (zip [1..<Suc (length rows)] rows))"
  "images_drawn (render_report R L fs mis today_str rows)
     = concat (map (\<lambda>r. case image_to_embed R fs r of None \<Rightarrow> [] | Some p \<Rightarrow> [p]) rows)"
  by (simp_all add: render_report_def Let_def drawn_at_append size_after_append
        images_drawn_append page_head_canvas strings_drawn strings_not_drawn
        render_rows_drawn render_rows_images)

lemma export_pdf_written:
  assumes "HAS_REPORTLAB R" "export_mission a prompt_answer = Some m"
      and "select_mission m (db a) \<noteq> []" "save_path \<noteq> []"
  shows "export_pdf R L today prompt_answer save_path fs a
           = Inr (fs(save_path \<mapsto>
                PdfFile (render_report R L fs m (format_date today) (select_mission m (db a)))))"
  using assms by (simp add: export_pdf_def Let_def)

lemma select_mission_rev_listing:
  "select_mission m d = rev (filter (\<lambda>r. mission r = Some m) (select_all d))"
  by (simp add: select_mission_def select_all_def order_desc_def rev_filter[symmetric]
        filter_order_asc)

subsection \<open>Images that cannot be embedded\<close>

text \<open>
  Claim C8. Under the same conditions the export is written whatever the state of the
  receipt files. Every row has its six values on the canvas. The images on the canvas are,
  in the order of the rows, those of the rows whose image path names a file that decodes
  as an image (of non-zero size); a row whose file is missing or does not decode has no
  image and changes nothing else.
\<close>

theorem report_skips_unreadable_images:
  assumes "HAS_REPORTLAB R"
      and "export_mission a prompt_answer = Some m"
      and "filter (\<lambda>r. mission r = Some m) (expenses (db a)) \<noteq> []"
      and "save_path \<noteq> []"
  shows "export_pdf R (L :: 'f pylib) today prompt_answer save_path fs a
           = Inr (fs(save_path \<mapsto>
                PdfFile (render_report R L fs m (format_date today) (select_mission m (db a))))) \<and>
         drawn_at 10 cur (render_report R L fs m (format_date today) (select_mission m (db a)))
           = concat (map (\<lambda>(i, r). map (persian_text R) (row_values L i r))
                         (zip [1..<Suc (length (select_mission m (db a)))]
                              (select_mission m (db a)))) \<and>
         images_drawn (render_report R L fs m (format_date today) (select_mission m (db a)))
           = concat (map (\<lambda>r. case image_to_embed R fs r of None \<Rightarrow> [] | Some p \<Rightarrow> [p])
                         (select_mission m (db a))) \<and>
         (\<forall>(r :: 'f expense) p. image_path r = Some p \<and> (fs p = None \<or> fs p = Some OtherFile)
            \<longrightarrow> image_to_embed R fs r = None) \<and>
         (\<forall>(r :: 'f expense) p fmt q im.
            image_path r = Some p \<and> p \<noteq> [] \<and> fs p = Some (ImageFile fmt q im) \<and>
            HAS_PIL R \<and> 0 < width im \<and> 0 < height im
            \<longrightarrow> image_to_embed R fs r = Some p)"
proof -
  have ne: "select_mission m (db a) \<noteq> []"
    using assms(3) by (auto simp: select_mission_empty filter_empty_conv)
  have w: "export_pdf R L today prompt_answer save_path fs a
           = Inr (fs(save_path \<mapsto>
                PdfFile (render_report R L fs m (format_date today) (select_mission m (db a)))))"
    using assms(1,2) ne assms(4) by (rule export_pdf_written)
  have skip: "image_to_embed R fs r = None"
    if "image_path r = Some p \<and> (fs p = None \<or> fs p = Some OtherFile)" for r :: "'f expense" and p
    using that by (auto simp: image_to_embed_def image_size_def)
  have keep: "image_to_embed R fs r = Some p"
    if "image_path r = Some p \<and> p \<noteq> [] \<and> fs p = Some (ImageFile fmt q im) \<and>
        HAS_PIL R \<and> 0 < width im \<and> 0 < height im" for r :: "'f expense" and p fmt q im
    using that by (auto simp: image_to_embed_def image_size_def)
  have d: "drawn_at 10 cur (render_report R L fs m (format_date today) (select_mission m (db a)))
           = concat (map (\<lambda>(i, r). map (persian_text R) (row_values L i r))
                         (zip [1..<Suc (length (select_mission m (db a)))]
                              (select_mission m (db a))))"
    by (rule render_report_canvas(1))
  have i: "images_drawn (render_report R L fs m (format_date today) (select_mission m (db a)))
           = concat (map (\<lambda>r. case image_to_embed R fs r of None \<Rightarrow> [] | Some p \<Rightarrow> [p])
                         (select_mission m (db a)))"
    by (rule render_report_canvas(2))
  show ?thesis
  proof (intro conjI allI impI)
    show "export_pdf R L today prompt_answer save_path fs a
           = Inr (fs(save_path \<mapsto>
                PdfFile (render_report R L fs m (format_date today) (select_mission m (db a)))))"
      by (rule w)
  qed (rule d, rule i, erule skip, erule keep)
qed

text \<open>Three rows of mission \<^verbatim>\<open>M\<close>: the receipt of the first is an image on disk, that of
  the second is missing, that of the third is a file that is no image. The report is
  written, with all three rows and the first receipt.\<close>

theorem report_skips_unreadable_images_witness:
  "HAS_REPORTLAB sample_lib \<and>
   export_mission (sample_app [sample_row 1 ''2024-01-01'' ''M'' (Some ''a.jpg''),
                               sample_row 2 ''2024-01-02'' ''M'' (Some ''gone.jpg''),
                               sample_row 3 ''2024-01-03'' ''M'' (Some ''notes.txt'')] None [] []) None
     = Some ''M'' \<and>
   length (filter (\<lambda>r. mission r = Some ''M'')
     (expenses (db (sample_app [sample_row 1 ''2024-01-01'' ''M'' (Some ''a.jpg''),
                                sample_row 2 ''2024-01-02'' ''M'' (Some ''gone.jpg''),
                                sample_row 3 ''2024-01-03'' ''M'' (Some ''notes.txt'')] None [] []))))
     = 3 \<and>
   images_drawn
     (render_report sample_lib whole_amounts
        [''a.jpg'' \<mapsto> ImageFile ''JPEG'' 85 (sample_image 800 600), ''notes.txt'' \<mapsto> OtherFile]
        ''M'' (format_date (2024, 5, 1))
        (select_mission ''M''
           (db (sample_app [sample_row 1 ''2024-01-01'' ''M'' (Some ''a.jpg''),
                            sample_row 2 ''2024-01-02'' ''M'' (Some ''gone.jpg''),
                            sample_row 3 ''2024-01-03'' ''M'' (Some ''notes.txt'')] None [] []))))
     = [''a.jpg''] \<and>
   length (drawn_at 10 0
     (render_report sample_lib whole_amounts
        [''a.jpg'' \<mapsto> ImageFile ''JPEG'' 85 (sample_image 800 600), ''notes.txt'' \<mapsto> OtherFile]
        ''M'' (format_date (2024, 5, 1))
        (select_mission ''M''
           (db (sample_app [sample_row 1 ''2024-01-01'' ''M'' (Some ''a.jpg''),
                            sample_row 2 ''2024-01-02'' ''M'' (Some ''gone.jpg''),
                            sample_row 3 ''2024-01-03'' ''M'' (Some ''notes.txt'')] None [] [])))))
     = 18"
proof -
  let ?rows = "[sample_row 1 ''2024-01-01'' ''M'' (Some ''a.jpg''),
                sample_row 2 ''2024-01-02'' ''M'' (Some ''gone.jpg''),
                sample_row 3 ''2024-01-03'' ''M'' (Some ''notes.txt'')]"
  let ?a = "sample_app ?rows None [] []"
  let ?fs = "[''a.jpg'' \<mapsto> ImageFile ''JPEG'' 85 (sample_image 800 600), ''notes.txt'' \<mapsto> OtherFile]"
  have h1: "HAS_REPORTLAB sample_lib" by (simp add: sample_lib_def)
  have h2: "export_mission ?a None = Some ''M''" by code_simp
  have h3: "filter (\<lambda>r. mission r = Some ''M'') (expenses (db ?a)) = ?rows"
    by (simp add: sample_app_def sample_row_def)
  have sel: "select_mission ''M'' (db ?a) = ?rows"
    by (simp add: select_mission_def order_asc_def sample_app_def sample_row_def)
  have e: "image_to_embed sample_lib ?fs (sample_row 1 ''2024-01-01'' ''M'' (Some ''a.jpg'')) = Some ''a.jpg''"
          "image_to_embed sample_lib ?fs (sample_row 2 ''2024-01-02'' ''M'' (Some ''gone.jpg'')) = None"
          "image_to_embed sample_lib ?fs (sample_row 3 ''2024-01-03'' ''M'' (Some ''notes.txt'')) = None"
    by (simp_all add: image_to_embed_def image_size_def sample_lib_def sample_row_def
          sample_image_def)
  have h3': "filter (\<lambda>r. mission r = Some ''M'') (expenses (db ?a)) \<noteq> []"
    by (simp add: h3)
  have h4: "''/tmp/out.pdf'' \<noteq> []" by simp
  note t = report_skips_unreadable_images [of sample_lib ?a None "''M''" "''/tmp/out.pdf''"
             whole_amounts "(2024, 5, 1)" ?fs 0, OF h1 h2 h3' h4, unfolded sel]
  note d = t [THEN conjunct2, THEN conjunct1]
  note i = t [THEN conjunct2, THEN conjunct2, THEN conjunct1]
  have 1: "images_drawn (render_report sample_lib whole_amounts ?fs ''M''
             (format_date (2024, 5, 1)) ?rows) = [''a.jpg'']"
    unfolding i by (simp add: e)
  have 2: "length (drawn_at 10 0 (render_report sample_lib whole_amounts ?fs ''M''
             (format_date (2024, 5, 1)) ?rows)) = 18"
    unfolding d by (simp add: row_values_def upt_rec)
  have h3l: "length (filter (\<lambda>r. mission r = Some ''M'') (expenses (db ?a))) = 3"
    by (simp add: h3)
  show ?thesis
    using h1 h2 h3l 1 2 by (simp only: sel)
qed

end
